theory Spec2Isabelle
  imports Main "HOL-Library.AList" "HOL-Library.Sublist" "HOL-Library.Word"
begin

section \<open>Strings\<close>

text \<open>
  Python strings are modelled as \<^typ>\<open>string\<close>. A \<^typ>\<open>char\<close> stands for one code point
  below 256, which is exact for header values (the HTTP library decodes them as Latin-1).
  Library functions whose full behaviour is not part of the repository are parameters of
  the model; they are collected in the record \<open>lib\<close> below.
\<close>

definition startswith :: "string \<Rightarrow> string \<Rightarrow> bool" where
  "startswith s p = (take (length p) s = p)"

text \<open>\<open>urllib.parse.unquote\<close> returns its argument unchanged when it holds no percent
  sign. What it does otherwise (percent-decoding, then UTF-8 decoding with replacement)
  is the parameter \<open>dec\<close>.\<close>

definition unquote :: "(string \<Rightarrow> string) \<Rightarrow> string \<Rightarrow> string" where
  "unquote dec s = (if CHR ''%'' \<in> set s then dec s else s)"

text \<open>\<open>os.path.basename\<close> (POSIX): everything after the last slash.\<close>

definition basename :: "string \<Rightarrow> string" where
  "basename p = rev (takeWhile (\<lambda>c. c \<noteq> CHR ''/'') (rev p))"

text \<open>The character class \<open>[A-Za-z0-9._-]\<close> of \<open>sanitize_filename\<close>.\<close>

definition safe_chars :: "char set" where
  "safe_chars = set ''ABCDEFGHIJKLMNOPQRSTUVWXYZabcdefghijklmnopqrstuvwxyz0123456789._-''"

text \<open>\<open>re.sub(r"[^A-Za-z0-9._-]", "_", name)\<close>\<close>

definition replace_unsafe :: "string \<Rightarrow> string" where
  "replace_unsafe name = map (\<lambda>c. if c \<in> safe_chars then c else CHR ''_'') name"

text \<open>\<open>re.sub(r"_+", "_", name)\<close>: every maximal run of underscores becomes one.\<close>

fun collapse_underscores :: "string \<Rightarrow> string" where
  "collapse_underscores (a # b # cs) =
     (if a = CHR ''_'' \<and> b = CHR ''_'' then collapse_underscores (b # cs)
      else a # collapse_underscores (b # cs))"
| "collapse_underscores cs = cs"

definition placeholder :: string where
  "placeholder = ''downloaded_image''"

definition sanitize_filename :: "(string \<Rightarrow> string) \<Rightarrow> string \<Rightarrow> string" where
  "sanitize_filename dec name0 =
     (let name1 = (if name0 = [] then placeholder else name0);
          name2 = unquote dec name1;
          name3 = basename name2;
          name4 = replace_unsafe name3;
          name5 = collapse_underscores name4
      in take 200 name5)"

text \<open>The property of the specification: the name matches
  \<open>^[A-Za-z0-9._-]{1,200}$\<close>.\<close>

definition matches_safe_name :: "string \<Rightarrow> bool" where
  "matches_safe_name s = (s \<noteq> [] \<and> length s \<le> 200 \<and> set s \<subseteq> safe_chars)"

section \<open>Content types and extensions\<close>

text \<open>Whitespace removed by \<open>str.strip()\<close>, among the code points below 256.\<close>

definition is_space :: "char \<Rightarrow> bool" where
  "is_space c = ((of_char c :: nat) \<in> {9, 10, 11, 12, 13, 28, 29, 30, 31, 32, 133, 160})"

definition strip :: "string \<Rightarrow> string" where
  "strip s = rev (dropWhile is_space (rev (dropWhile is_space s)))"

text \<open>\<open>str.lower()\<close> on one code point below 256: the ASCII capitals and the Latin-1
  capitals (all of U+00C0..U+00DE but the multiplication sign) move up by 32.\<close>

definition lower_char :: "char \<Rightarrow> char" where
  "lower_char c =
     (let n = (of_char c :: nat)
      in if (65 \<le> n \<and> n \<le> 90) \<or> (192 \<le> n \<and> n \<le> 222 \<and> n \<noteq> 215)
         then char_of (n + 32) else c)"

definition lower :: "string \<Rightarrow> string" where
  "lower s = map lower_char s"

text \<open>The expression \<open>h.split(";")[0].strip().lower()\<close>, used by \<open>download_image\<close>
  on the header and again by \<open>ext_from_content_type\<close>.\<close>

definition media_type :: "string \<Rightarrow> string" where
  "media_type h = lower (strip (takeWhile (\<lambda>c. c \<noteq> CHR '';'') h))"

definition ALLOWED_IMAGE_TYPES :: "string set" where
  "ALLOWED_IMAGE_TYPES =
     {''image/jpeg'', ''image/png'', ''image/gif'', ''image/webp'', ''image/svg+xml'',
      ''image/bmp'', ''image/tiff''}"

definition mapping :: "(string \<times> string) list" where
  "mapping =
     [(''image/jpeg'', ''.jpg''), (''image/png'', ''.png''), (''image/gif'', ''.gif''),
      (''image/webp'', ''.webp''), (''image/svg+xml'', ''.svg''), (''image/bmp'', ''.bmp''),
      (''image/tiff'', ''.tiff'')]"

definition ext_from_content_type :: "string \<Rightarrow> string" where
  "ext_from_content_type content_type =
     (if content_type = [] then []
      else (case map_of mapping (media_type content_type) of
              Some e \<Rightarrow> e
            | None \<Rightarrow> []))"

section \<open>Paths\<close>

text \<open>\<open>str.rfind\<close> for one character: the index of its last occurrence, or \<open>-1\<close>.\<close>

definition rfind :: "char \<Rightarrow> string \<Rightarrow> int" where
  "rfind c p =
     (if c \<in> set p then int (length p) - 1 - int (length (takeWhile (\<lambda>d. d \<noteq> c) (rev p)))
      else - 1)"

text \<open>\<open>os.path.splitext\<close> (POSIX): the extension starts at the last dot, when that dot
  comes after the last slash and some character that is not a dot stands between them.\<close>

definition splitext :: "string \<Rightarrow> string \<times> string" where
  "splitext p =
     (let sepIndex = rfind (CHR ''/'') p;
          dotIndex = rfind (CHR ''.'') p
      in if dotIndex > sepIndex \<and>
            list_ex (\<lambda>c. c \<noteq> CHR ''.'')
              (take (nat (dotIndex - (sepIndex + 1))) (drop (nat (sepIndex + 1)) p))
         then (take (nat dotIndex) p, drop (nat dotIndex) p)
         else (p, []))"

text \<open>\<open>os.path.join\<close> (POSIX) of two components.\<close>

definition os_path_join :: "string \<Rightarrow> string \<Rightarrow> string" where
  "os_path_join a b =
     (if startswith b ''/'' then b
      else if a = [] \<or> last a = CHR ''/'' then a @ b
      else a @ ''/'' @ b)"

text \<open>\<open>str(i)\<close> for a natural number: its decimal digits.\<close>

definition digit_char :: "nat \<Rightarrow> char" where
  "digit_char d = ''0123456789'' ! d"

function str_nat :: "nat \<Rightarrow> string" where
  "str_nat n = (if n < 10 then [digit_char n] else str_nat (n div 10) @ [digit_char (n mod 10)])"
  by pat_completeness auto
termination
  by (relation "measure id") auto

declare str_nat.simps [simp del]

lemma digit_char_inj: "a < 10 \<Longrightarrow> b < 10 \<Longrightarrow> digit_char a = digit_char b \<Longrightarrow> a = b"
proof -
  assume a: "a < 10" and b: "b < 10" and e: "digit_char a = digit_char b"
  have d: "distinct ''0123456789''" by simp
  have "length ''0123456789'' = 10" by simp
  with a b d e show ?thesis
    unfolding digit_char_def by (metis nth_eq_iff_index_eq)
qed

lemma str_nat_nonempty: "str_nat n \<noteq> []"
  by (subst str_nat.simps) simp

lemma str_nat_inj: "str_nat m = str_nat n \<Longrightarrow> m = n"
proof (induction m arbitrary: n rule: str_nat.induct)
  case (1 m)
  show ?case
  proof (cases "m < 10")
    case True
    then have m: "str_nat m = [digit_char m]" by (subst str_nat.simps) simp
    show ?thesis
    proof (cases "n < 10")
      case True
      then have "str_nat n = [digit_char n]" by (subst str_nat.simps) simp
      with m "1.prems" \<open>m < 10\<close> True show ?thesis by (auto dest: digit_char_inj)
    next
      case False
      then have "str_nat n = str_nat (n div 10) @ [digit_char (n mod 10)]"
        by (subst str_nat.simps) simp
      with m "1.prems" str_nat_nonempty [of "n div 10"] show ?thesis by simp
    qed
  next
    case False
    then have m: "str_nat m = str_nat (m div 10) @ [digit_char (m mod 10)]"
      by (subst str_nat.simps) simp
    show ?thesis
    proof (cases "n < 10")
      case True
      then have "str_nat n = [digit_char n]" by (subst str_nat.simps) simp
      with m "1.prems" str_nat_nonempty [of "m div 10"] show ?thesis by simp
    next
      case n: False
      then have "str_nat n = str_nat (n div 10) @ [digit_char (n mod 10)]"
        by (subst str_nat.simps) simp
      with m "1.prems" have e1: "str_nat (m div 10) = str_nat (n div 10)"
        and e2: "digit_char (m mod 10) = digit_char (n mod 10)" by simp_all
      from "1.IH" [OF False e1] have "m div 10 = n div 10" .
      moreover from e2 have "m mod 10 = n mod 10" by (intro digit_char_inj) simp_all
      ultimately show ?thesis by (metis div_mult_mod_eq)
    qed
  qed
qed


section \<open>The output directory\<close>

type_synonym byte = "8 word"

text \<open>A path names a regular file with its content, or a directory. The file system is a
  finite table from paths to entries; the paths the program builds are all
  \<open>os_path_join out_dir name\<close> for a name without a slash.\<close>

datatype entry = File "byte list" | Dir

type_synonym filesystem = "(string \<times> entry) list"

datatype exn =
    KeyError | TypeError | AttributeError
  | FileNotFoundError | IsADirectoryError
  | LibraryError string

definition os_path_exists :: "filesystem \<Rightarrow> string \<Rightarrow> bool" where
  "os_path_exists fs p = (map_of fs p \<noteq> None)"

text \<open>\<open>open(p, "wb")\<close>: creates the file or truncates it; a directory cannot be opened.\<close>

definition open_wb :: "filesystem \<Rightarrow> string \<Rightarrow> exn + filesystem" where
  "open_wb fs p =
     (case map_of fs p of
        Some Dir \<Rightarrow> Inl IsADirectoryError
      | _ \<Rightarrow> Inr (AList.update p (File []) fs))"

text \<open>\<open>fh.write(chunk)\<close> on the handle opened at \<open>p\<close>.\<close>

definition fh_write :: "filesystem \<Rightarrow> string \<Rightarrow> byte list \<Rightarrow> filesystem" where
  "fh_write fs p chunk =
     (case map_of fs p of
        Some (File bs) \<Rightarrow> AList.update p (File (bs @ chunk)) fs
      | _ \<Rightarrow> fs)"

definition os_remove :: "filesystem \<Rightarrow> string \<Rightarrow> exn + filesystem" where
  "os_remove fs p =
     (case map_of fs p of
        None \<Rightarrow> Inl FileNotFoundError
      | Some Dir \<Rightarrow> Inl IsADirectoryError
      | Some (File bs) \<Rightarrow> Inr (AList.delete p fs))"

text \<open>\<open>os.replace(src, dst)\<close> for a regular file \<open>src\<close>.\<close>

definition os_replace :: "filesystem \<Rightarrow> string \<Rightarrow> string \<Rightarrow> exn + filesystem" where
  "os_replace fs src dst =
     (case map_of fs src of
        None \<Rightarrow> Inl FileNotFoundError
      | Some e \<Rightarrow>
          (case map_of fs dst of
             Some Dir \<Rightarrow> Inl IsADirectoryError
           | _ \<Rightarrow> Inr (AList.update dst e (AList.delete src fs))))"

section \<open>Choosing a free name\<close>

text \<open>The names \<open>f"{base}_{i}{ext}"\<close> tried by \<open>make_unique_path\<close> are pairwise
  different, so a finite directory holds only finitely many of them and the loop ends.\<close>

definition candidate_name :: "string \<Rightarrow> string \<Rightarrow> string \<Rightarrow> nat \<Rightarrow> string" where
  "candidate_name directory base ext i = os_path_join directory (base @ ''_'' @ str_nat i @ ext)"

lemma candidate_name_inj: "inj (candidate_name directory base ext)"
proof (rule injI)
  fix i j
  assume e: "candidate_name directory base ext i = candidate_name directory base ext j"
  have s: "startswith (base @ ''_'' @ str_nat i @ ext) ''/'' = startswith (base @ ''_'' @ str_nat j @ ext) ''/''"
    by (cases base) (simp_all add: startswith_def)
  from e s have "base @ ''_'' @ str_nat i @ ext = base @ ''_'' @ str_nat j @ ext"
    by (auto simp: candidate_name_def os_path_join_def split: if_splits)
  then have "str_nat i = str_nat j" by simp
  then show "i = j" by (rule str_nat_inj)
qed

lemma finite_taken: "finite {j. os_path_exists fs (candidate_name directory base ext j)}"
proof -
  have "{j. os_path_exists fs (candidate_name directory base ext j)}
          = candidate_name directory base ext -` (fst ` set fs)"
    by (auto simp: os_path_exists_def map_of_eq_None_iff)
  moreover have "finite (candidate_name directory base ext -` (fst ` set fs))"
    by (intro finite_vimageI candidate_name_inj) simp
  ultimately show ?thesis by simp
qed

definition taken_from :: "filesystem \<Rightarrow> string \<Rightarrow> string \<Rightarrow> string \<Rightarrow> nat \<Rightarrow> nat" where
  "taken_from fs directory base ext i =
     card {j. i \<le> j \<and> os_path_exists fs (candidate_name directory base ext j)}"

lemma taken_from_step:
  "taken_from fs directory base ext i =
     taken_from fs directory base ext (Suc i) +
       (if os_path_exists fs (candidate_name directory base ext i) then 1 else 0)"
proof -
  let ?P = "\<lambda>j. os_path_exists fs (candidate_name directory base ext j)"
  have fin: "finite {j. Suc i \<le> j \<and> ?P j}"
    by (rule finite_subset [OF _ finite_taken [of fs directory base ext]]) auto
  show ?thesis
  proof (cases "?P i")
    case True
    then have "{j. i \<le> j \<and> ?P j} = insert i {j. Suc i \<le> j \<and> ?P j}"
      by (auto simp: le_Suc_eq)
    with fin True show ?thesis by (simp add: taken_from_def)
  next
    case False
    then have "{j. i \<le> j \<and> ?P j} = {j. Suc i \<le> j \<and> ?P j}"
      by (auto simp: Suc_le_eq order_le_less)
    with False show ?thesis by (simp add: taken_from_def)
  qed
qed

function mup_loop :: "filesystem \<Rightarrow> string \<Rightarrow> string \<Rightarrow> string \<Rightarrow> string \<Rightarrow> nat \<Rightarrow> string" where
  "mup_loop fs directory base ext candidate i =
     (if os_path_exists fs candidate
      then mup_loop fs directory base ext (os_path_join directory (base @ ''_'' @ str_nat i @ ext)) (i + 1)
      else candidate)"
  by pat_completeness auto
termination
proof (relation "measure (\<lambda>(fs, directory, base, ext, candidate, i).
          taken_from fs directory base ext i + (if os_path_exists fs candidate then 1 else 0))")
  show "wf (measure (\<lambda>(fs, directory, base, ext, candidate, i).
          taken_from fs directory base ext i + (if os_path_exists fs candidate then 1 else 0)))"
    by simp
next
  fix fs :: filesystem and directory base ext candidate :: string and i :: nat
  assume "os_path_exists fs candidate"
  then show "((fs, directory, base, ext, os_path_join directory (base @ ''_'' @ str_nat i @ ext), i + 1),
              (fs, directory, base, ext, candidate, i))
            \<in> measure (\<lambda>(fs, directory, base, ext, candidate, i).
                taken_from fs directory base ext i + (if os_path_exists fs candidate then 1 else 0))"
    using taken_from_step [of fs directory base ext i]
    by (simp add: candidate_name_def)
qed

declare mup_loop.simps [simp del]

definition make_unique_path :: "filesystem \<Rightarrow> string \<Rightarrow> string \<Rightarrow> string" where
  "make_unique_path fs directory filename =
     (case splitext filename of
        (base, ext) \<Rightarrow> mup_loop fs directory base ext (os_path_join directory filename) 1)"


section \<open>The index\<close>

text \<open>The index is what \<open>json.load\<close> returned (any JSON value) or the empty dictionary.
  A dictionary is an association list with one pair per key. \<open>JNum\<close> stands for every
  JSON number: the operations below treat integers and floats alike.\<close>

datatype json =
    JNull | JBool bool | JNum int | JStr string
  | JList "json list" | JObj "(string \<times> json) list"

text \<open>\<open>key in x\<close> for a string key.\<close>

fun py_contains :: "json \<Rightarrow> string \<Rightarrow> exn + bool" where
  "py_contains (JObj kvs) key = Inr (map_of kvs key \<noteq> None)"
| "py_contains (JList xs) key = Inr (JStr key \<in> set xs)"
| "py_contains (JStr s) key = Inr (sublist key s)"
| "py_contains _ key = Inl TypeError"

text \<open>\<open>x[key]\<close> for a string key.\<close>

fun py_getitem :: "json \<Rightarrow> string \<Rightarrow> exn + json" where
  "py_getitem (JObj kvs) key = (case map_of kvs key of None \<Rightarrow> Inl KeyError | Some v \<Rightarrow> Inr v)"
| "py_getitem _ key = Inl TypeError"

text \<open>\<open>x.get(key)\<close>: only a dictionary has the method.\<close>

fun py_get :: "json \<Rightarrow> string \<Rightarrow> exn + json option" where
  "py_get (JObj kvs) key = Inr (map_of kvs key)"
| "py_get _ key = Inl AttributeError"

text \<open>\<open>x[key] = v\<close> for a string key.\<close>

fun py_setitem :: "json \<Rightarrow> string \<Rightarrow> json \<Rightarrow> exn + json" where
  "py_setitem (JObj kvs) key v = Inr (JObj (AList.update key v kvs))"
| "py_setitem _ key v = Inl TypeError"

text \<open>\<open>load_index\<close>: \<open>json_load\<close> stands for reading and parsing the file's bytes, with
  \<open>None\<close> when that raises.\<close>

definition load_index :: "(byte list \<Rightarrow> json option) \<Rightarrow> filesystem \<Rightarrow> string \<Rightarrow> json" where
  "load_index json_load fs index_path =
     (if os_path_exists fs index_path
      then (case map_of fs index_path of
              Some (File bs) \<Rightarrow> (case json_load bs of Some j \<Rightarrow> j | None \<Rightarrow> JObj [])
            | _ \<Rightarrow> JObj [])
      else JObj [])"

section \<open>The response\<close>

text \<open>What \<open>resp.iter_content\<close> yields: chunks of bytes, or an exception raised by the
  transport while the body is read.\<close>

datatype event = Chunk "byte list" | Fault string

record response =
  status_code :: int
  content_type :: "string option"
  content_length :: "string option"
  content_disposition :: "string option"
  body :: "event list"

text \<open>\<open>session.get\<close> raises a \<open>RequestException\<close> or returns a response.\<close>

datatype get_result = RequestException string | Response response

text \<open>The library and the clock: percent-decoding of \<open>unquote\<close>, the builtin \<open>int\<close> on a
  string (\<open>None\<close> for \<open>ValueError\<close>), the hexadecimal SHA-256 digest of a byte sequence,
  the path component that \<open>urlparse\<close> finds in a URL, and \<open>int(time.time())\<close>.\<close>

record env =
  pct_decode :: "string \<Rightarrow> string"
  int_of_str :: "string \<Rightarrow> int option"
  sha256_hexdigest :: "byte list \<Rightarrow> string"
  urlparse_path :: "string \<Rightarrow> string"
  time_now :: int

section \<open>The name in a Content-Disposition header\<close>

definition dquote :: char where
  "dquote = CHR 0x22"

text \<open>The seven characters \<open>UTF-8\<close> followed by two apostrophes.\<close>

definition utf8_prefix :: string where
  "utf8_prefix = ''UTF-8'' @ [CHR 0x27, CHR 0x27]"

definition strip_optional :: "string \<Rightarrow> string \<Rightarrow> string" where
  "strip_optional p s = (if startswith s p then drop (length p) s else s)"

text \<open>The group \<open>([^";]+)\<close> after an optional double quote; empty when it cannot match.\<close>

definition cd_group :: "string \<Rightarrow> string" where
  "cd_group s = takeWhile (\<lambda>c. c \<noteq> dquote \<and> c \<noteq> CHR '';'') (strip_optional [dquote] s)"

text \<open>The pattern \<open>filename\*?=(?:UTF-8'')?"?([^";]+)"?\<close> matched at the start of
  \<open>s\<close>: the optional encoding prefix is consumed when the group can match after it,
  and left to the group otherwise.\<close>

definition cd_match_here :: "string \<Rightarrow> string option" where
  "cd_match_here s =
     (if \<not> startswith s ''filename'' then None
      else let r1 = strip_optional ''*'' (drop 8 s)
           in if \<not> startswith r1 ''='' then None
              else let r2 = drop 1 r1;
                       g1 = (if startswith r2 utf8_prefix then cd_group (drop 7 r2) else []);
                       g2 = cd_group r2
                   in if g1 \<noteq> [] then Some g1
                      else if g2 \<noteq> [] then Some g2
                      else None)"

text \<open>\<open>re.search\<close>: the leftmost position where the pattern matches.\<close>

fun cd_search :: "string \<Rightarrow> string option" where
  "cd_search [] = None"
| "cd_search (c # cs) =
     (case cd_match_here (c # cs) of
        Some g \<Rightarrow> Some g
      | None \<Rightarrow> cd_search cs)"

section \<open>The fetch routine\<close>

text \<open>The pair \<open>(True, final_path)\<close> is \<open>Saved final_path\<close>; a pair \<open>(False, message)\<close>
  is \<open>Failed\<close> with the kind of message and the values formatted into it.\<close>

datatype reason =
    Request_error string
  | HTTP_error int
  | Rejected_content_type string
  | Rejected_content_length string int
  | Aborted_size int
  | Write_error exn
  | Duplicate json "json option"
  | Finalize_error exn

datatype result = Saved string | Failed reason

datatype outcome = Returns result | Raises exn

text \<open>Step 3 of \<open>download_image\<close>: the name from the header, else from the URL
  (\<open>[]\<close> stands for both \<open>None\<close> and the empty string, which \<open>not filename\<close>
  treats alike) ...\<close>

definition name_from_response :: "env \<Rightarrow> string \<Rightarrow> response \<Rightarrow> string" where
  "name_from_response E url resp =
     (let filename =
            (case content_disposition resp of
               None \<Rightarrow> []
             | Some cd \<Rightarrow>
                 (if cd = [] then []
                  else (case cd_search cd of
                          None \<Rightarrow> []
                        | Some g \<Rightarrow> sanitize_filename (pct_decode E) g)))
      in if filename = []
         then sanitize_filename (pct_decode E) (basename (urlparse_path E url))
         else filename)"

text \<open>... then the extension from the content type when the name has none.\<close>

definition determine_filename :: "env \<Rightarrow> string \<Rightarrow> response \<Rightarrow> string \<Rightarrow> string" where
  "determine_filename E url resp ct =
     (let filename = name_from_response E url resp
      in if snd (splitext filename) = []
         then (let ext = ext_from_content_type ct
               in if ext \<noteq> [] then filename @ ext else filename @ ''.img'')
         else filename)"

text \<open>The \<open>for\<close> loop over the chunks, with the running hash input and byte count.\<close>

datatype loop_exit = Exhausted | Over_limit | Raised_in_loop exn

fun write_chunks ::
  "int \<Rightarrow> string \<Rightarrow> event list \<Rightarrow> filesystem \<Rightarrow> byte list \<Rightarrow> int
     \<Rightarrow> loop_exit \<times> filesystem \<times> byte list \<times> int" where
  "write_chunks max_bytes tmp_path [] fs sha total0 = (Exhausted, fs, sha, total0)"
| "write_chunks max_bytes tmp_path (Fault e # rest) fs sha total0 =
     (Raised_in_loop (LibraryError e), fs, sha, total0)"
| "write_chunks max_bytes tmp_path (Chunk chunk # rest) fs sha total0 =
     (if chunk = [] then write_chunks max_bytes tmp_path rest fs sha total0
      else let fs1 = fh_write fs tmp_path chunk;
               sha1 = sha @ chunk;
               total1 = total0 + int (length chunk)
           in if total1 > max_bytes then (Over_limit, fs1, sha1, total1)
              else write_chunks max_bytes tmp_path rest fs1 sha1 total1)"

text \<open>The handlers \<open>except Exception as e\<close>: remove the temporary file when it exists
  (which may raise in its turn), then return the failure.\<close>

definition cleanup_and_fail ::
  "filesystem \<Rightarrow> string \<Rightarrow> json \<Rightarrow> reason \<Rightarrow> outcome \<times> filesystem \<times> json" where
  "cleanup_and_fail fs tmp_path index r =
     (if os_path_exists fs tmp_path
      then (case os_remove fs tmp_path of
              Inl e \<Rightarrow> (Raises e, fs, index)
            | Inr fs' \<Rightarrow> (Returns (Failed r), fs', index))
      else (Returns (Failed r), fs, index))"

text \<open>The record that step 6 stores.\<close>

definition index_record :: "env \<Rightarrow> string \<Rightarrow> string \<Rightarrow> string \<Rightarrow> int \<Rightarrow> json" where
  "index_record E url ct final_path n =
     JObj [(''filename'', JStr (basename final_path)), (''url'', JStr url),
           (''content_type'', JStr ct), (''size'', JNum n),
           (''timestamp'', JNum (time_now E))]"

text \<open>Steps 4 to 6, after the body was written to the temporary file.\<close>

definition finish_download ::
  "env \<Rightarrow> string \<Rightarrow> string \<Rightarrow> string \<Rightarrow> string \<Rightarrow> string \<Rightarrow> filesystem \<Rightarrow> json
     \<Rightarrow> byte list \<Rightarrow> int \<Rightarrow> outcome \<times> filesystem \<times> json" where
  "finish_download E url out_dir ct filename tmp_path fs index sha total0 =
     (let digest = sha256_hexdigest E sha
      in case py_contains index digest of
           Inl e \<Rightarrow> (Raises e, fs, index)
         | Inr True \<Rightarrow>
             (case (if os_path_exists fs tmp_path then os_remove fs tmp_path else Inr fs) of
                Inl e \<Rightarrow> (Raises e, fs, index)
              | Inr fs' \<Rightarrow>
                  (case py_getitem index digest of
                     Inl e \<Rightarrow> (Raises e, fs', index)
                   | Inr existing \<Rightarrow>
                       (case py_getitem existing ''filename'' of
                          Inl e \<Rightarrow> (Raises e, fs', index)
                        | Inr name \<Rightarrow>
                            (case py_get existing ''url'' of
                               Inl e \<Rightarrow> (Raises e, fs', index)
                             | Inr u \<Rightarrow> (Returns (Failed (Duplicate name u)), fs', index)))))
         | Inr False \<Rightarrow>
             (let final_path = make_unique_path fs out_dir filename
              in case os_replace fs tmp_path final_path of
                   Inl e \<Rightarrow> cleanup_and_fail fs tmp_path index (Finalize_error e)
                 | Inr fs' \<Rightarrow>
                     (case py_setitem index digest
                             (index_record E url ct final_path total0) of
                        Inl e \<Rightarrow> (Raises e, fs', index)
                      | Inr index' \<Rightarrow> (Returns (Saved final_path), fs', index'))))"

text \<open>The declared length is over the limit: \<open>content_length\<close> is present and not empty,
  \<open>int\<close> accepts it, and the value is greater than \<open>max_bytes\<close>.\<close>

definition declared_too_long :: "env \<Rightarrow> response \<Rightarrow> int \<Rightarrow> bool" where
  "declared_too_long E resp max_bytes =
     (case content_length resp of
        None \<Rightarrow> False
      | Some cl \<Rightarrow>
          (if cl = [] then False
           else (case int_of_str E cl of
                   None \<Rightarrow> False
                 | Some n \<Rightarrow> n > max_bytes)))"

text \<open>The steps after the header checks: name the temporary file, write the body to it
  under the \<open>try\<close>, then finish.\<close>

definition save_body ::
  "env \<Rightarrow> string \<Rightarrow> string \<Rightarrow> response \<Rightarrow> string \<Rightarrow> json \<Rightarrow> int \<Rightarrow> filesystem
     \<Rightarrow> outcome \<times> filesystem \<times> json" where
  "save_body E url out_dir resp ct index max_bytes fs =
     (let filename = determine_filename E url resp ct;
          tmp_path = os_path_join out_dir (filename @ ''.tmp'')
      in case open_wb fs tmp_path of
           Inl e \<Rightarrow> cleanup_and_fail fs tmp_path index (Write_error e)
         | Inr fs1 \<Rightarrow>
             (case write_chunks max_bytes tmp_path (body resp) fs1 [] 0 of
                (Raised_in_loop e, fs2, sha, total0) \<Rightarrow>
                  cleanup_and_fail fs2 tmp_path index (Write_error e)
              | (Over_limit, fs2, sha, total0) \<Rightarrow>
                  (case os_remove fs2 tmp_path of
                     Inl e \<Rightarrow> cleanup_and_fail fs2 tmp_path index (Write_error e)
                   | Inr fs3 \<Rightarrow> (Returns (Failed (Aborted_size max_bytes)), fs3, index))
              | (Exhausted, fs2, sha, total0) \<Rightarrow>
                  finish_download E url out_dir ct filename tmp_path fs2 index sha total0))"

text \<open>\<open>resp.raise_for_status()\<close> raises for the status codes 400 to 599.\<close>

definition raise_for_status :: "response \<Rightarrow> bool" where
  "raise_for_status resp = (400 \<le> status_code resp \<and> status_code resp < 600)"

text \<open>\<open>resp.headers.get("Content-Type", "").split(";")[0].strip().lower()\<close>\<close>

definition header_media_type :: "response \<Rightarrow> string" where
  "header_media_type resp =
     media_type (case content_type resp of None \<Rightarrow> [] | Some h \<Rightarrow> h)"

text \<open>\<open>download_image\<close>: the session is the function from a URL to what \<open>session.get\<close>
  does with it; the file system and the index are passed in and returned.\<close>

definition download_image ::
  "env \<Rightarrow> string \<Rightarrow> string \<Rightarrow> (string \<Rightarrow> get_result) \<Rightarrow> json \<Rightarrow> int \<Rightarrow> filesystem
     \<Rightarrow> outcome \<times> filesystem \<times> json" where
  "download_image E url out_dir session index max_bytes fs =
     (case session url of
        RequestException e \<Rightarrow> (Returns (Failed (Request_error e)), fs, index)
      | Response resp \<Rightarrow>
         (if raise_for_status resp
          then (Returns (Failed (HTTP_error (status_code resp))), fs, index)
          else let ct = header_media_type resp
               in if \<not> startswith ct ''image/'' \<or> ct \<notin> ALLOWED_IMAGE_TYPES
                  then (Returns (Failed (Rejected_content_type ct)), fs, index)
                  else if declared_too_long E resp max_bytes
                  then (Returns (Failed (Rejected_content_length
                                   (case content_length resp of None \<Rightarrow> [] | Some cl \<Rightarrow> cl)
                                   max_bytes)), fs, index)
                  else save_body E url out_dir resp ct index max_bytes fs))"

text \<open>The bytes a list of events carries (empty chunks carry none).\<close>

definition payload :: "event list \<Rightarrow> byte list" where
  "payload evs = concat (map (\<lambda>ev. case ev of Chunk c \<Rightarrow> c | Fault e \<Rightarrow> []) evs)"

definition is_fault :: "event \<Rightarrow> bool" where
  "is_fault ev = (case ev of Chunk c \<Rightarrow> False | Fault e \<Rightarrow> True)"

text \<open>The download gets past the header checks of steps 1 and 2 and the declared length.\<close>

definition passes_header_checks ::
  "env \<Rightarrow> string \<Rightarrow> (string \<Rightarrow> get_result) \<Rightarrow> int \<Rightarrow> response \<Rightarrow> bool" where
  "passes_header_checks E url session max_bytes resp =
     (session url = Response resp \<and> \<not> raise_for_status resp \<and>
      startswith (header_media_type resp) ''image/'' \<and>
      header_media_type resp \<in> ALLOWED_IMAGE_TYPES \<and>
      \<not> declared_too_long E resp max_bytes)"

text \<open>The temporary file of a download.\<close>

definition tmp_path_of :: "env \<Rightarrow> string \<Rightarrow> string \<Rightarrow> response \<Rightarrow> string" where
  "tmp_path_of E url out_dir resp =
     os_path_join out_dir (determine_filename E url resp (header_media_type resp) @ ''.tmp'')"

text \<open>What the duplicate branch answers for the record found under the digest.\<close>

definition duplicate_outcome :: "json \<Rightarrow> outcome" where
  "duplicate_outcome existing =
     (case py_getitem existing ''filename'' of
        Inl e \<Rightarrow> Raises e
      | Inr name \<Rightarrow>
          (case py_get existing ''url'' of
             Inl e \<Rightarrow> Raises e
           | Inr u \<Rightarrow> Returns (Failed (Duplicate name u))))"

section \<open>A concrete environment\<close>

text \<open>Values on which the model is run. The library functions are stand-ins: a decimal
  reader for \<open>int\<close>, the identity for percent-decoding, the text after the host for the
  URL's path and a digest that spells the bytes out. The theorems below hold for every
  environment; these values only instantiate them.\<close>

definition decimal_value :: "string \<Rightarrow> int option" where
  "decimal_value s =
     (if s \<noteq> [] \<and> list_all (\<lambda>c. c \<in> set ''0123456789'') s
      then Some (foldl (\<lambda>n c. 10 * n + (int (of_char c) - 48)) 0 s)
      else None)"

definition spelled_digest :: "byte list \<Rightarrow> string" where
  "spelled_digest bs = concat (map (\<lambda>b. str_nat (unat b) @ ''.'') bs)"

definition demo_env :: env where
  "demo_env =
     \<lparr>pct_decode = id, int_of_str = decimal_value, sha256_hexdigest = spelled_digest,
      urlparse_path = (\<lambda>u. dropWhile (\<lambda>c. c \<noteq> CHR ''/'') (drop 8 u)),
      time_now = 1700000000\<rparr>"

definition demo_url :: string where
  "demo_url = ''https://x.test/a.jpg''"

definition demo_response :: "string option \<Rightarrow> event list \<Rightarrow> response" where
  "demo_response cl evs =
     \<lparr>status_code = 200, content_type = Some ''image/jpeg; charset=binary'',
      content_length = cl, content_disposition = None, body = evs\<rparr>"

definition demo_session :: "response \<Rightarrow> string \<Rightarrow> get_result" where
  "demo_session resp u = Response resp"

definition html_response :: response where
  "html_response = (demo_response None [Chunk [1, 2]])\<lparr>content_type := Some ''text/html''\<rparr>"

section \<open>The filename sanitizer\<close>

lemma set_collapse_underscores: "set (collapse_underscores xs) \<subseteq> set xs"
  by (induction xs rule: collapse_underscores.induct) auto

lemma collapse_underscores_Nil: "collapse_underscores xs = [] \<longleftrightarrow> xs = []"
  by (induction xs rule: collapse_underscores.induct) auto

lemma set_replace_unsafe: "set (replace_unsafe xs) \<subseteq> safe_chars"
  by (auto simp: replace_unsafe_def safe_chars_def)

lemma set_sanitize_filename: "set (sanitize_filename dec raw) \<subseteq> safe_chars"
proof -
  have "set (sanitize_filename dec raw)
          \<subseteq> set (replace_unsafe (basename (unquote dec (if raw = [] then placeholder else raw))))"
    unfolding sanitize_filename_def Let_def
    using set_collapse_underscores set_take_subset by (rule order_trans [rotated])
  then show ?thesis using set_replace_unsafe by blast
qed

lemma sanitize_filename_Nil:
  "sanitize_filename dec raw = [] \<longleftrightarrow>
     basename (unquote dec (if raw = [] then placeholder else raw)) = []"
  by (simp add: sanitize_filename_def Let_def collapse_underscores_Nil replace_unsafe_def)

text \<open>
  What holds of every result: \<open>sanitize_filename raw\<close> holds only characters of
  \<open>[A-Za-z0-9._-]\<close>, has at most 200 characters and holds no path separator. It
  matches \<open>^[A-Za-z0-9._-]{1,200}$\<close> exactly when the last path segment of the decoded
  input is not empty, and the empty input gives the placeholder name.
\<close>

lemma sanitize_filename_shape:
  "set (sanitize_filename dec raw) \<subseteq> safe_chars \<and>
   length (sanitize_filename dec raw) \<le> 200 \<and>
   CHR ''/'' \<notin> set (sanitize_filename dec raw) \<and>
   (matches_safe_name (sanitize_filename dec raw) \<longleftrightarrow>
      basename (unquote dec (if raw = [] then placeholder else raw)) \<noteq> []) \<and>
   sanitize_filename dec [] = placeholder"
proof -
  have s: "set (sanitize_filename dec raw) \<subseteq> safe_chars" by (rule set_sanitize_filename)
  have l: "length (sanitize_filename dec raw) \<le> 200"
    by (simp add: sanitize_filename_def Let_def)
  have "CHR ''/'' \<notin> safe_chars" by (simp add: safe_chars_def)
  with s have n: "CHR ''/'' \<notin> set (sanitize_filename dec raw)" by blast
  have m: "matches_safe_name (sanitize_filename dec raw) \<longleftrightarrow>
      basename (unquote dec (if raw = [] then placeholder else raw)) \<noteq> []"
    using s l by (simp add: matches_safe_name_def sanitize_filename_Nil)
  have p: "sanitize_filename dec [] = placeholder"
    by (simp add: sanitize_filename_def placeholder_def unquote_def basename_def
        replace_unsafe_def safe_chars_def)
  from s l n m p show ?thesis by blast
qed

lemma sanitize_filename_shape_example:
  "sanitize_filename id ''my photo__1.JPG'' = ''my_photo_1.JPG'' \<and>
   matches_safe_name (sanitize_filename id ''my photo__1.JPG'')"
  using sanitize_filename_shape [of id "''my photo__1.JPG''"]
  by (simp add: sanitize_filename_def placeholder_def unquote_def basename_def
        replace_unsafe_def safe_chars_def)

lemma sanitize_filename_encoded_slash:
  "dec ''%2F'' = ''/'' \<Longrightarrow> sanitize_filename dec ''%2F'' = []"
  by (simp add: sanitize_filename_def unquote_def basename_def replace_unsafe_def)

text \<open>
  C3. The claim has every result non-empty: matching \<open>^[A-Za-z0-9._-]{1,200}$\<close>, or the
  placeholder, which is to stand in for an empty result. The function tests \<open>not name\<close>
  on the raw input, before \<open>unquote\<close> and \<open>basename\<close>: on an input that ends in a
  slash (and on \<open>%2F\<close>, which decodes to one) the last path segment is empty, the
  placeholder is not substituted and the result is the empty string.
\<close>

theorem sanitize_filename_returns_empty:
  "sanitize_filename id ''a/'' = [] \<and>
   \<not> matches_safe_name (sanitize_filename id ''a/'') \<and>
   sanitize_filename id ''a/'' \<noteq> placeholder"
  by (simp add: sanitize_filename_def placeholder_def unquote_def basename_def
        replace_unsafe_def safe_chars_def matches_safe_name_def)


section \<open>Allowed content types\<close>

lemma media_type_literals:
  "media_type ''image/jpeg'' = ''image/jpeg''"
  "media_type ''image/png'' = ''image/png''"
  "media_type ''image/gif'' = ''image/gif''"
  "media_type ''image/webp'' = ''image/webp''"
  "media_type ''image/svg+xml'' = ''image/svg+xml''"
  "media_type ''image/bmp'' = ''image/bmp''"
  "media_type ''image/tiff'' = ''image/tiff''"
  by (simp_all add: media_type_def strip_def lower_def lower_char_def is_space_def)



lemma ext_literals:
  "ext_from_content_type ''image/jpeg'' = ''.jpg''"
  "ext_from_content_type ''image/png'' = ''.png''"
  "ext_from_content_type ''image/gif'' = ''.gif''"
  "ext_from_content_type ''image/webp'' = ''.webp''"
  "ext_from_content_type ''image/svg+xml'' = ''.svg''"
  "ext_from_content_type ''image/bmp'' = ''.bmp''"
  "ext_from_content_type ''image/tiff'' = ''.tiff''"
  by (simp_all add: ext_from_content_type_def media_type_literals mapping_def)



lemma map_of_mapping_literals:
  "map_of mapping ''image/jpeg'' = Some ''.jpg''"
  "map_of mapping ''image/png'' = Some ''.png''"
  "map_of mapping ''image/gif'' = Some ''.gif''"
  "map_of mapping ''image/webp'' = Some ''.webp''"
  "map_of mapping ''image/svg+xml'' = Some ''.svg''"
  "map_of mapping ''image/bmp'' = Some ''.bmp''"
  "map_of mapping ''image/tiff'' = Some ''.tiff''"
  by (simp_all add: mapping_def)

lemma allowed_cases:
  assumes "ct \<in> ALLOWED_IMAGE_TYPES"
  shows "ct = ''image/jpeg'' \<or> ct = ''image/png'' \<or> ct = ''image/gif'' \<or>
         ct = ''image/webp'' \<or> ct = ''image/svg+xml'' \<or> ct = ''image/bmp'' \<or>
         ct = ''image/tiff''"
  using assms by (simp add: ALLOWED_IMAGE_TYPES_def)

lemma ext_allowed:
  assumes "ct \<in> ALLOWED_IMAGE_TYPES"
  shows "map_of mapping ct = Some (ext_from_content_type ct) \<and>
         ext_from_content_type ct \<noteq> [] \<and> ext_from_content_type ct \<noteq> ''.img''"
  using allowed_cases [OF assms]
  by (elim disjE) (simp_all only: ext_literals map_of_mapping_literals, simp_all)

lemma media_type_allowed: "ct \<in> ALLOWED_IMAGE_TYPES \<Longrightarrow> media_type ct = ct"
  by (drule allowed_cases) (elim disjE, simp_all only: media_type_literals)


section \<open>Writing the body\<close>

lemma payload_simps [simp]:
  "payload [] = []"
  "payload (Chunk c # evs) = c @ payload evs"
  "payload (Fault e # evs) = payload evs"
  by (simp_all add: payload_def)

lemma is_fault_simps [simp]:
  "is_fault (Chunk c) = False"
  "is_fault (Fault e) = True"
  by (simp_all add: is_fault_def)

lemma fh_write_File:
  "map_of fs p = Some (File bs) \<Longrightarrow> fh_write fs p c = AList.update p (File (bs @ c)) fs"
  by (simp add: fh_write_def)

lemma write_chunks_prefix:
  assumes "write_chunks max_bytes tmp evs fs sha t = (ex, fs', sha', t')"
    and "map_of fs tmp = Some (File bs)"
  shows "\<exists>k\<le>length evs.
           \<not> list_ex is_fault (take k evs) \<and>
           fs' = AList.update tmp (File (bs @ payload (take k evs))) fs \<and>
           sha' = sha @ payload (take k evs) \<and>
           t' = t + int (length (payload (take k evs))) \<and>
           (ex = Exhausted \<longrightarrow> k = length evs) \<and>
           (ex = Over_limit \<longrightarrow> max_bytes < t' \<and> payload (take k evs) \<noteq> [])"
  using assms
proof (induction evs arbitrary: fs sha t bs)
  case Nil
  then show ?case by (auto simp: AList.update_triv)
next
  case (Cons ev evs)
  show ?case
  proof (cases ev)
    case (Fault e)
    with Cons.prems have "fs' = fs" "sha' = sha" "t' = t" "ex = Raised_in_loop (LibraryError e)"
      by auto
    with Cons.prems(2) show ?thesis
      by (intro exI [of _ 0]) (simp add: AList.update_triv)
  next
    case (Chunk c)
    show ?thesis
    proof (cases "c = []")
      case True
      with Chunk Cons.prems have "write_chunks max_bytes tmp evs fs sha t = (ex, fs', sha', t')"
        by simp
      from Cons.IH [OF this Cons.prems(2)] obtain k where k: "k \<le> length evs"
        "\<not> list_ex is_fault (take k evs)"
        "fs' = AList.update tmp (File (bs @ payload (take k evs))) fs"
        "sha' = sha @ payload (take k evs)"
        "t' = t + int (length (payload (take k evs)))"
        "ex = Exhausted \<longrightarrow> k = length evs"
        "ex = Over_limit \<longrightarrow> max_bytes < t' \<and> payload (take k evs) \<noteq> []"
        by blast
      with True Chunk show ?thesis
        by (intro exI [of _ "Suc k"]) simp
    next
      case False
      let ?fs1 = "AList.update tmp (File (bs @ c)) fs"
      have fs1: "fh_write fs tmp c = ?fs1" using Cons.prems(2) by (rule fh_write_File)
      have m1: "map_of ?fs1 tmp = Some (File (bs @ c))" by (simp add: AList.update_conv')
      show ?thesis
      proof (cases "max_bytes < t + int (length c)")
        case True
        with False Chunk Cons.prems fs1 have "ex = Over_limit" "fs' = ?fs1" "sha' = sha @ c"
          "t' = t + int (length c)" by (auto simp: Let_def)
        with True False Chunk show ?thesis
          by (intro exI [of _ "Suc 0"]) simp
      next
        case nover: False
        with False Chunk Cons.prems fs1
        have "write_chunks max_bytes tmp evs ?fs1 (sha @ c) (t + int (length c)) = (ex, fs', sha', t')"
          by (auto simp: Let_def)
        from Cons.IH [OF this m1] obtain k where k: "k \<le> length evs"
          "\<not> list_ex is_fault (take k evs)"
          "fs' = AList.update tmp (File ((bs @ c) @ payload (take k evs))) ?fs1"
          "sha' = (sha @ c) @ payload (take k evs)"
          "t' = (t + int (length c)) + int (length (payload (take k evs)))"
          "ex = Exhausted \<longrightarrow> k = length evs"
          "ex = Over_limit \<longrightarrow> max_bytes < t' \<and> payload (take k evs) \<noteq> []"
          by blast
        with False Chunk show ?thesis
          by (intro exI [of _ "Suc k"]) simp
      qed
    qed
  qed
qed



lemma write_chunks_exhausted:
  assumes "\<not> list_ex is_fault evs" and "t + int (length (payload evs)) \<le> max_bytes"
    and "map_of fs tmp = Some (File bs)"
  shows "write_chunks max_bytes tmp evs fs sha t =
           (Exhausted, AList.update tmp (File (bs @ payload evs)) fs, sha @ payload evs,
            t + int (length (payload evs)))"
  using assms
proof (induction evs arbitrary: fs sha t bs)
  case Nil
  then show ?case by (simp add: AList.update_triv)
next
  case (Cons ev evs)
  then show ?case
  proof (cases ev)
    case (Fault e)
    with Cons.prems show ?thesis by simp
  next
    case (Chunk c)
    show ?thesis
    proof (cases "c = []")
      case True
      from Chunk True Cons.prems have
        "write_chunks max_bytes tmp evs fs sha t =
           (Exhausted, AList.update tmp (File (bs @ payload evs)) fs, sha @ payload evs,
            t + int (length (payload evs)))"
        by (intro Cons.IH) simp_all
      with Chunk True show ?thesis by simp
    next
      case False
      have m1: "map_of (AList.update tmp (File (bs @ c)) fs) tmp = Some (File (bs @ c))"
        by (simp add: AList.update_conv')
      from Chunk Cons.prems have
        "write_chunks max_bytes tmp evs (AList.update tmp (File (bs @ c)) fs) (sha @ c)
           (t + int (length c)) =
         (Exhausted,
          AList.update tmp (File ((bs @ c) @ payload evs)) (AList.update tmp (File (bs @ c)) fs),
          (sha @ c) @ payload evs, (t + int (length c)) + int (length (payload evs)))"
        by (intro Cons.IH m1) simp_all
      with Chunk False Cons.prems show ?thesis
        by (simp add: Let_def fh_write_File)
    qed
  qed
qed

lemma open_wb_ok:
  "map_of fs p \<noteq> Some Dir \<Longrightarrow> open_wb fs p = Inr (AList.update p (File []) fs)"
  by (auto simp: open_wb_def split: option.splits entry.splits)

lemma open_wb_cases:
  "open_wb fs p = Inl e \<Longrightarrow> map_of fs p = Some Dir \<and> e = IsADirectoryError"
  "open_wb fs p = Inr fs1 \<Longrightarrow> map_of fs p \<noteq> Some Dir \<and> fs1 = AList.update p (File []) fs"
  by (auto simp: open_wb_def split: option.splits entry.splits)

lemma os_remove_File:
  "map_of fs p = Some (File bs) \<Longrightarrow> os_remove fs p = Inr (AList.delete p fs)"
  by (simp add: os_remove_def)

lemma cleanup_and_fail_index: "snd (snd (cleanup_and_fail fs p index r)) = index"
  by (simp add: cleanup_and_fail_def split: sum.splits)

lemma cleanup_and_fail_Returns:
  "fst (cleanup_and_fail fs p index r) = Returns x \<Longrightarrow> x = Failed r"
  by (simp add: cleanup_and_fail_def split: sum.splits if_splits)

lemma cleanup_and_fail_File:
  "map_of fs p = Some (File bs) \<Longrightarrow>
     cleanup_and_fail fs p index r = (Returns (Failed r), AList.delete p fs, index)"
  by (simp add: cleanup_and_fail_def os_path_exists_def os_remove_File)

lemma download_image_passes:
  "passes_header_checks E url session max_bytes resp \<Longrightarrow>
     download_image E url out_dir session index max_bytes fs =
       save_body E url out_dir resp (header_media_type resp) index max_bytes fs"
  by (simp add: passes_header_checks_def download_image_def Let_def)



lemma mup_loop_free: "\<not> os_path_exists fs (mup_loop fs directory base ext candidate i)"
proof (induction fs directory base ext candidate i rule: mup_loop.induct)
  case (1 fs directory base ext candidate i)
  show ?case
  proof (cases "os_path_exists fs candidate")
    case True
    with "1.IH" show ?thesis by (subst mup_loop.simps) simp
  next
    case False
    then show ?thesis by (subst mup_loop.simps) simp
  qed
qed

lemma make_unique_path_free: "\<not> os_path_exists fs (make_unique_path fs directory filename)"
  by (simp add: make_unique_path_def mup_loop_free split: prod.splits)

lemma os_replace_ok:
  "map_of fs src = Some e \<Longrightarrow> \<not> os_path_exists fs dst \<Longrightarrow>
     os_replace fs src dst = Inr (AList.update dst e (AList.delete src fs))"
  by (simp add: os_replace_def os_path_exists_def)

lemma finish_download_new:
  assumes "index = JObj kvs" and "map_of kvs (sha256_hexdigest E sha) = None"
    and "map_of fs tmp = Some (File bs)"
  shows "finish_download E url out_dir ct filename tmp fs index sha t =
           (Returns (Saved (make_unique_path fs out_dir filename)),
            AList.update (make_unique_path fs out_dir filename) (File bs) (AList.delete tmp fs),
            JObj (AList.update (sha256_hexdigest E sha)
                    (index_record E url ct (make_unique_path fs out_dir filename) t) kvs))"
  using assms os_replace_ok [OF assms(3) make_unique_path_free [of fs out_dir filename]]
  by (simp add: finish_download_def Let_def index_record_def)

lemma finish_download_dup:
  assumes "index = JObj kvs" and "map_of kvs (sha256_hexdigest E sha) = Some existing"
    and "map_of fs tmp = Some (File bs)"
  shows "finish_download E url out_dir ct filename tmp fs index sha t =
           (duplicate_outcome existing, AList.delete tmp fs, index)"
  using assms
  by (simp add: finish_download_def Let_def duplicate_outcome_def os_path_exists_def
      os_remove_File split: sum.splits)

lemma cleanup_and_fail_eq_Returns:
  "cleanup_and_fail fs p index r = (Returns x, fs', index') \<Longrightarrow> x = Failed r"
  using cleanup_and_fail_Returns [of fs p index r x] by simp

lemma finish_download_Saved:
  assumes "finish_download E url out_dir ct filename tmp fs index sha t =
             (Returns (Saved p), fs', index')"
  shows "\<exists>kvs. index = JObj kvs \<and> map_of kvs (sha256_hexdigest E sha) = None \<and>
           p = make_unique_path fs out_dir filename \<and>
           os_replace fs tmp p = Inr fs' \<and>
           index' = JObj (AList.update (sha256_hexdigest E sha) (index_record E url ct p t) kvs)"
proof (cases index)
  case (JObj kvs)
  with assms show ?thesis
    by (auto simp: finish_download_def Let_def index_record_def
        split: sum.splits if_splits bool.splits option.splits
        dest: cleanup_and_fail_eq_Returns)
qed (use assms in \<open>auto simp: finish_download_def Let_def
        split: sum.splits if_splits bool.splits dest: cleanup_and_fail_eq_Returns\<close>)


lemma save_body_complete:
  assumes nd: "map_of fs (tmp_path_of E url out_dir resp) \<noteq> Some Dir"
    and nf: "\<not> list_ex is_fault (body resp)"
    and le: "int (length (payload (body resp))) \<le> max_bytes"
  shows "save_body E url out_dir resp (header_media_type resp) index max_bytes fs =
           finish_download E url out_dir (header_media_type resp)
             (determine_filename E url resp (header_media_type resp))
             (tmp_path_of E url out_dir resp)
             (AList.update (tmp_path_of E url out_dir resp) (File (payload (body resp))) fs)
             index (payload (body resp)) (int (length (payload (body resp))))"
proof -
  let ?tmp = "tmp_path_of E url out_dir resp"
  have "write_chunks max_bytes ?tmp (body resp) (AList.update ?tmp (File []) fs) [] 0 =
          (Exhausted,
           AList.update ?tmp (File ([] @ payload (body resp))) (AList.update ?tmp (File []) fs),
           [] @ payload (body resp), 0 + int (length (payload (body resp))))"
    using nf le by (intro write_chunks_exhausted) (simp_all add: AList.update_conv')
  with nd show ?thesis
    by (simp add: save_body_def Let_def open_wb_ok tmp_path_of_def [symmetric])
qed

lemma save_body_Saved:
  assumes "save_body E url out_dir resp (header_media_type resp) index max_bytes fs =
             (Returns (Saved p), fs', index')"
  shows "\<exists>kvs. index = JObj kvs \<and>
           map_of kvs (sha256_hexdigest E (payload (body resp))) = None \<and>
           \<not> list_ex is_fault (body resp) \<and>
           map_of fs (tmp_path_of E url out_dir resp) \<noteq> Some Dir \<and>
           p = make_unique_path
                 (AList.update (tmp_path_of E url out_dir resp) (File (payload (body resp))) fs)
                 out_dir (determine_filename E url resp (header_media_type resp)) \<and>
           fs' = AList.update p (File (payload (body resp)))
                   (AList.delete (tmp_path_of E url out_dir resp) fs) \<and>
           index' = JObj (AList.update (sha256_hexdigest E (payload (body resp)))
                      (index_record E url (header_media_type resp) p
                         (int (length (payload (body resp))))) kvs)"
proof -
  let ?tmp = "tmp_path_of E url out_dir resp"
  let ?ct = "header_media_type resp"
  let ?fn = "determine_filename E url resp ?ct"
  obtain fs1 where o: "open_wb fs ?tmp = Inr fs1"
    using assms
    by (cases "open_wb fs ?tmp")
      (auto simp: save_body_def Let_def tmp_path_of_def [symmetric] dest: cleanup_and_fail_eq_Returns)
  from open_wb_cases(2) [OF o] have nd: "map_of fs ?tmp \<noteq> Some Dir"
    and fs1: "fs1 = AList.update ?tmp (File []) fs" by simp_all
  obtain ex fs2 sha t where w: "write_chunks max_bytes ?tmp (body resp) fs1 [] 0 = (ex, fs2, sha, t)"
    by (cases "write_chunks max_bytes ?tmp (body resp) fs1 [] 0") auto
  from assms o w have ex: "ex = Exhausted"
    by (cases ex)
      (auto simp: save_body_def Let_def tmp_path_of_def [symmetric]
        split: sum.splits dest: cleanup_and_fail_eq_Returns)
  with assms o w have f: "finish_download E url out_dir ?ct ?fn ?tmp fs2 index sha t =
      (Returns (Saved p), fs', index')"
    by (simp add: save_body_def Let_def tmp_path_of_def [symmetric])
  have "map_of fs1 ?tmp = Some (File [])" by (simp add: fs1 AList.update_conv')
  from write_chunks_prefix [OF w this] ex obtain k where k: "k = length (body resp)"
    "\<not> list_ex is_fault (take k (body resp))"
    "fs2 = AList.update ?tmp (File ([] @ payload (take k (body resp)))) fs1"
    "sha = [] @ payload (take k (body resp))"
    "t = 0 + int (length (payload (take k (body resp))))"
    by blast
  then have nf: "\<not> list_ex is_fault (body resp)"
    and fs2: "fs2 = AList.update ?tmp (File (payload (body resp))) fs"
    and sha: "sha = payload (body resp)" and t: "t = int (length (payload (body resp)))"
    by (simp_all add: fs1)
  from finish_download_Saved [OF f] obtain kvs where kvs: "index = JObj kvs"
    "map_of kvs (sha256_hexdigest E sha) = None" "p = make_unique_path fs2 out_dir ?fn"
    "os_replace fs2 ?tmp p = Inr fs'"
    "index' = JObj (AList.update (sha256_hexdigest E sha) (index_record E url ?ct p t) kvs)"
    by blast
  have "map_of fs2 ?tmp = Some (File (payload (body resp)))" by (simp add: fs2 AList.update_conv')
  moreover have "\<not> os_path_exists fs2 p" unfolding kvs(3) by (rule make_unique_path_free)
  ultimately have "os_replace fs2 ?tmp p =
      Inr (AList.update p (File (payload (body resp))) (AList.delete ?tmp fs2))"
    by (rule os_replace_ok)
  with kvs(4) have "fs' = AList.update p (File (payload (body resp))) (AList.delete ?tmp fs)"
    by (simp add: fs2 AList.delete_update_same)
  with kvs nf nd show ?thesis by (auto simp: sha t fs2)
qed

lemma download_image_Saved:
  assumes "download_image E url out_dir session index max_bytes fs =
             (Returns (Saved p), fs', index')"
  shows "\<exists>resp. passes_header_checks E url session max_bytes resp \<and>
           save_body E url out_dir resp (header_media_type resp) index max_bytes fs =
             (Returns (Saved p), fs', index')"
  using assms
  by (cases "session url")
    (auto simp: download_image_def passes_header_checks_def Let_def split: if_splits)


lemma finish_download_reasons:
  assumes "finish_download E url out_dir ct filename tmp fs index sha t =
             (Returns (Failed r), fs', index')"
  shows "(\<exists>name u. r = Duplicate name u) \<or> (\<exists>e. r = Finalize_error e)"
  using assms
  by (auto simp: finish_download_def Let_def
      split: sum.splits if_splits bool.splits dest: cleanup_and_fail_eq_Returns)

lemma save_body_reasons:
  assumes "save_body E url out_dir resp ct index max_bytes fs = (Returns (Failed r), fs', index')"
  shows "(r = Aborted_size max_bytes \<and>
            fst (write_chunks max_bytes (os_path_join out_dir (determine_filename E url resp ct @ ''.tmp''))
                   (body resp)
                   (AList.update (os_path_join out_dir (determine_filename E url resp ct @ ''.tmp''))
                      (File []) fs) [] 0) = Over_limit) \<or>
         (\<exists>e. r = Write_error e) \<or> (\<exists>name u. r = Duplicate name u) \<or>
         (\<exists>e. r = Finalize_error e)"
proof -
  let ?tmp = "os_path_join out_dir (determine_filename E url resp ct @ ''.tmp'')"
  show ?thesis
  proof (cases "open_wb fs ?tmp")
    case (Inl e)
    with assms show ?thesis
      by (auto simp: save_body_def Let_def dest: cleanup_and_fail_eq_Returns)
  next
    case (Inr fs1)
    then have fs1: "fs1 = AList.update ?tmp (File []) fs" by (simp add: open_wb_cases(2))
    obtain ex fs2 sha t where w: "write_chunks max_bytes ?tmp (body resp) fs1 [] 0 = (ex, fs2, sha, t)"
      by (cases "write_chunks max_bytes ?tmp (body resp) fs1 [] 0") auto
    show ?thesis
    proof (cases ex)
      case Exhausted
      with assms Inr w have "finish_download E url out_dir ct (determine_filename E url resp ct)
          ?tmp fs2 index sha t = (Returns (Failed r), fs', index')"
        by (simp add: save_body_def Let_def)
      from finish_download_reasons [OF this] show ?thesis by blast
    next
      case Over_limit
      with assms Inr w fs1 show ?thesis
        by (auto simp: save_body_def Let_def split: sum.splits dest: cleanup_and_fail_eq_Returns)
    next
      case (Raised_in_loop e)
      with assms Inr w show ?thesis
        by (auto simp: save_body_def Let_def dest: cleanup_and_fail_eq_Returns)
    qed
  qed
qed

lemma save_body_Aborted:
  assumes "save_body E url out_dir resp (header_media_type resp) index max_bytes fs =
             (Returns (Failed (Aborted_size m)), fs', index')"
  shows "\<exists>k\<le>length (body resp). \<not> list_ex is_fault (take k (body resp)) \<and>
           payload (take k (body resp)) \<noteq> [] \<and>
           max_bytes < int (length (payload (take k (body resp))))"
proof -
  let ?tmp = "tmp_path_of E url out_dir resp"
  let ?fs1 = "AList.update ?tmp (File []) fs"
  from save_body_reasons [OF assms]
  have o: "fst (write_chunks max_bytes ?tmp (body resp) ?fs1 [] 0) = Over_limit"
    by (simp add: tmp_path_of_def)
  obtain ex fs2 sha t where w: "write_chunks max_bytes ?tmp (body resp) ?fs1 [] 0 = (ex, fs2, sha, t)"
    by (cases "write_chunks max_bytes ?tmp (body resp) ?fs1 [] 0") auto
  with o have ex: "ex = Over_limit" by simp
  have "map_of ?fs1 ?tmp = Some (File [])" by (simp add: AList.update_conv')
  from write_chunks_prefix [OF w this] obtain k where k: "k \<le> length (body resp)"
    "\<not> list_ex is_fault (take k (body resp))"
    "t = 0 + int (length (payload (take k (body resp))))"
    "ex = Over_limit \<longrightarrow> max_bytes < t \<and> payload (take k (body resp)) \<noteq> []"
    by blast
  with ex have "max_bytes < int (length (payload (take k (body resp))))"
    "payload (take k (body resp)) \<noteq> []" by simp_all
  with k(1,2) show ?thesis by blast
qed


section \<open>The concrete environment, evaluated\<close>

lemma demo_media_type: "header_media_type (demo_response cl evs) = ''image/jpeg''"
  by (simp add: header_media_type_def demo_response_def media_type_def strip_def lower_def
      lower_char_def is_space_def)

lemma demo_name: "name_from_response demo_env demo_url (demo_response cl evs) = ''a.jpg''"
  by (simp add: name_from_response_def demo_response_def demo_env_def demo_url_def
      sanitize_filename_def unquote_def basename_def replace_unsafe_def safe_chars_def Let_def)

lemma splitext_a_jpg: "splitext ''a.jpg'' = (''a'', ''.jpg'')"
  by (simp add: splitext_def rfind_def Let_def)

lemma demo_filename:
  "determine_filename demo_env demo_url (demo_response cl evs) ''image/jpeg'' = ''a.jpg''"
  by (simp add: determine_filename_def demo_name splitext_a_jpg)

lemma demo_tmp_path: "tmp_path_of demo_env demo_url ''out'' (demo_response cl evs) = ''out/a.jpg.tmp''"
  by (simp add: tmp_path_of_def demo_media_type demo_filename os_path_join_def startswith_def)

lemma decimal_value_4: "decimal_value ''4'' = Some 4" "decimal_value ''5'' = Some 5"
  "decimal_value ''x'' = None"
  by (simp_all add: decimal_value_def)

lemma demo_passes:
  "passes_header_checks demo_env demo_url (demo_session (demo_response cl evs)) m
     (demo_response cl evs) \<longleftrightarrow> \<not> declared_too_long demo_env (demo_response cl evs) m"
  by (simp add: passes_header_checks_def demo_session_def demo_media_type startswith_def
      ALLOWED_IMAGE_TYPES_def raise_for_status_def)
     (simp add: demo_response_def)

lemma demo_declared:
  "declared_too_long demo_env (demo_response None evs) m = False"
  "declared_too_long demo_env (demo_response (Some ''4'') evs) m = (4 > m)"
  "declared_too_long demo_env (demo_response (Some ''5'') evs) m = (5 > m)"
  "declared_too_long demo_env (demo_response (Some ''x'') evs) m = False"
  by (simp_all add: declared_too_long_def demo_response_def demo_env_def decimal_value_4)



section \<open>The claims about the fetch routine\<close>

text \<open>
  C8. When the content type is one of the seven allowed types, the extension mapping has
  an entry for it, \<open>ext_from_content_type\<close> returns that entry, and a name without an
  extension gets it appended: the \<open>.img\<close> branch is not taken.
\<close>

theorem img_fallback_unreachable:
  assumes "ct \<in> ALLOWED_IMAGE_TYPES"
  shows "map_of mapping ct = Some (ext_from_content_type ct) \<and>
         ext_from_content_type ct \<noteq> [] \<and>
         ext_from_content_type ct \<noteq> ''.img'' \<and>
         determine_filename E url resp ct =
           (if snd (splitext (name_from_response E url resp)) = []
            then name_from_response E url resp @ ext_from_content_type ct
            else name_from_response E url resp)"
  using ext_allowed [OF assms] by (simp add: determine_filename_def Let_def)

theorem img_fallback_unreachable_witness:
  "''image/png'' \<in> ALLOWED_IMAGE_TYPES \<and>
   map_of mapping ''image/png'' = Some ''.png'' \<and>
   ext_from_content_type ''image/png'' = ''.png''"
proof -
  have h: "''image/png'' \<in> ALLOWED_IMAGE_TYPES" by (simp add: ALLOWED_IMAGE_TYPES_def)
  from img_fallback_unreachable [OF h, of demo_env demo_url "demo_response None []"] h
  show ?thesis by (simp add: ext_literals)
qed








lemma save_body_new:
  assumes "map_of fs (tmp_path_of E url out_dir resp) \<noteq> Some Dir"
    and "\<not> list_ex is_fault (body resp)"
    and "int (length (payload (body resp))) \<le> max_bytes"
    and "index = JObj kvs"
    and "map_of kvs (sha256_hexdigest E (payload (body resp))) = None"
    and "p = make_unique_path
               (AList.update (tmp_path_of E url out_dir resp) (File (payload (body resp))) fs)
               out_dir (determine_filename E url resp (header_media_type resp))"
  shows "save_body E url out_dir resp (header_media_type resp) index max_bytes fs =
           (Returns (Saved p),
            AList.update p (File (payload (body resp)))
              (AList.delete (tmp_path_of E url out_dir resp) fs),
            JObj (AList.update (sha256_hexdigest E (payload (body resp)))
                    (index_record E url (header_media_type resp) p
                       (int (length (payload (body resp))))) kvs))"
proof -
  let ?tmp = "tmp_path_of E url out_dir resp"
  let ?fs2 = "AList.update ?tmp (File (payload (body resp))) fs"
  have m: "map_of ?fs2 ?tmp = Some (File (payload (body resp)))"
    by (simp add: AList.update_conv')
  show ?thesis
    unfolding save_body_complete [OF assms(1-3)] finish_download_new [OF assms(4,5) m] assms(6)
    by (simp add: AList.delete_update_same)
qed

lemma save_body_dup:
  assumes "map_of fs (tmp_path_of E url out_dir resp) \<noteq> Some Dir"
    and "\<not> list_ex is_fault (body resp)"
    and "int (length (payload (body resp))) \<le> max_bytes"
    and "index = JObj kvs"
    and "map_of kvs (sha256_hexdigest E (payload (body resp))) = Some existing"
  shows "save_body E url out_dir resp (header_media_type resp) index max_bytes fs =
           (duplicate_outcome existing, AList.delete (tmp_path_of E url out_dir resp) fs, index)"
proof -
  let ?tmp = "tmp_path_of E url out_dir resp"
  let ?fs2 = "AList.update ?tmp (File (payload (body resp))) fs"
  have m: "map_of ?fs2 ?tmp = Some (File (payload (body resp)))"
    by (simp add: AList.update_conv')
  show ?thesis
    unfolding save_body_complete [OF assms(1-3)] finish_download_dup [OF assms(4,5) m]
    by (simp add: AList.delete_update_same)
qed

lemma save_body_not_header_reason:
  assumes "save_body E url out_dir resp ct index max_bytes fs = (Returns (Failed r), fs', index')"
  shows "r \<noteq> Rejected_content_type c" and "r \<noteq> Rejected_content_length cl m"
  using save_body_reasons [OF assms] by auto

lemma fst_save_body_not_type:
  "fst (save_body E url out_dir resp ct index max_bytes fs) \<noteq>
     Returns (Failed (Rejected_content_type c))"
proof
  assume a: "fst (save_body E url out_dir resp ct index max_bytes fs) =
     Returns (Failed (Rejected_content_type c))"
  obtain fs' index' where "save_body E url out_dir resp ct index max_bytes fs =
      (Returns (Failed (Rejected_content_type c)), fs', index')"
    using a by (cases "save_body E url out_dir resp ct index max_bytes fs") auto
  from save_body_not_header_reason(1) [OF this, of c] show False by simp
qed

lemma fst_save_body_not_length:
  "fst (save_body E url out_dir resp ct index max_bytes fs) \<noteq>
     Returns (Failed (Rejected_content_length cl m))"
proof
  assume a: "fst (save_body E url out_dir resp ct index max_bytes fs) =
     Returns (Failed (Rejected_content_length cl m))"
  obtain fs' index' where "save_body E url out_dir resp ct index max_bytes fs =
      (Returns (Failed (Rejected_content_length cl m)), fs', index')"
    using a by (cases "save_body E url out_dir resp ct index max_bytes fs") auto
  from save_body_not_header_reason(2) [OF this, of cl m] show False by simp
qed

text \<open>
  C5. For a response that reached the content-type check (the request returned it and
  \<open>raise_for_status\<close> let it pass), \<open>download_image\<close> returns the content-type
  rejection if and only if the media type of the header (parameters cut off, stripped,
  lower-cased) does not both start with \<open>image/\<close> and belong to the allow-list. On
  that rejection the file system and the index are returned as they were passed in.
\<close>

theorem content_type_rejection:
  assumes "session url = Response resp" and "\<not> raise_for_status resp"
  shows "((\<exists>c. fst (download_image E url out_dir session index max_bytes fs) =
                Returns (Failed (Rejected_content_type c))) \<longleftrightarrow>
          \<not> (startswith (header_media_type resp) ''image/'' \<and>
             header_media_type resp \<in> ALLOWED_IMAGE_TYPES)) \<and>
         (\<not> (startswith (header_media_type resp) ''image/'' \<and>
             header_media_type resp \<in> ALLOWED_IMAGE_TYPES) \<longrightarrow>
          download_image E url out_dir session index max_bytes fs =
            (Returns (Failed (Rejected_content_type (header_media_type resp))), fs, index))"
proof (cases "startswith (header_media_type resp) ''image/'' \<and>
             header_media_type resp \<in> ALLOWED_IMAGE_TYPES")
  case True
  with assms have "download_image E url out_dir session index max_bytes fs =
      (if declared_too_long E resp max_bytes
       then (Returns (Failed (Rejected_content_length
                (case content_length resp of None \<Rightarrow> [] | Some cl \<Rightarrow> cl) max_bytes)), fs, index)
       else save_body E url out_dir resp (header_media_type resp) index max_bytes fs)"
    by (simp add: download_image_def Let_def)
  then have "\<And>c. fst (download_image E url out_dir session index max_bytes fs) \<noteq>
      Returns (Failed (Rejected_content_type c))"
    by (simp add: fst_save_body_not_type)
  with True show ?thesis by simp
next
  case False
  with assms have "download_image E url out_dir session index max_bytes fs =
      (Returns (Failed (Rejected_content_type (header_media_type resp))), fs, index)"
    by (auto simp: download_image_def Let_def)
  with False show ?thesis by simp
qed


lemma html_media_type: "header_media_type html_response = ''text/html''"
  by (simp add: header_media_type_def html_response_def demo_response_def media_type_def
      strip_def lower_def lower_char_def is_space_def)

theorem content_type_rejection_witness:
  "demo_session html_response demo_url = Response html_response \<and>
   \<not> raise_for_status html_response \<and>
   \<not> (startswith (header_media_type html_response) ''image/'' \<and>
      header_media_type html_response \<in> ALLOWED_IMAGE_TYPES) \<and>
   download_image demo_env demo_url ''out'' (demo_session html_response) (JObj []) 10 [] =
     (Returns (Failed (Rejected_content_type ''text/html'')), [], JObj [])"
proof -
  have h1: "demo_session html_response demo_url = Response html_response"
    by (simp add: demo_session_def)
  have h2: "\<not> raise_for_status html_response"
    by (simp add: raise_for_status_def html_response_def demo_response_def)
  have h3: "\<not> (startswith (header_media_type html_response) ''image/'' \<and>
      header_media_type html_response \<in> ALLOWED_IMAGE_TYPES)"
    by (simp add: html_media_type startswith_def)
  from content_type_rejection [where session = "demo_session html_response" and url = demo_url
      and resp = html_response and E = demo_env and out_dir = "''out''" and index = "JObj []"
      and max_bytes = 10 and fs = "[]", OF h1 h2] h1 h2 h3
  show ?thesis by (simp add: html_media_type)
qed

lemma declared_too_long_iff:
  "declared_too_long E resp max_bytes \<longleftrightarrow>
     (\<exists>cl n. content_length resp = Some cl \<and> cl \<noteq> [] \<and> int_of_str E cl = Some n \<and>
        max_bytes < n)"
  by (auto simp: declared_too_long_def split: option.splits)

lemma download_image_content_length_None:
  assumes "content_length resp = Some cl" and "int_of_str E cl = None"
  shows "download_image E url out_dir (\<lambda>u. Response resp) index max_bytes fs =
         download_image E url out_dir (\<lambda>u. Response (resp\<lparr>content_length := None\<rparr>))
           index max_bytes fs"
proof -
  let ?r = "resp\<lparr>content_length := None\<rparr>"
  have d: "declared_too_long E resp max_bytes = False" "declared_too_long E ?r max_bytes = False"
    using assms by (simp_all add: declared_too_long_def)
  have h: "header_media_type ?r = header_media_type resp" "raise_for_status ?r = raise_for_status resp"
    by (simp_all add: header_media_type_def raise_for_status_def)
  have n: "\<And>ct. determine_filename E url ?r ct = determine_filename E url resp ct"
    by (simp add: determine_filename_def name_from_response_def)
  have b: "body ?r = body resp" by simp
  have s: "\<And>ct. save_body E url out_dir ?r ct index max_bytes fs =
             save_body E url out_dir resp ct index max_bytes fs"
    unfolding save_body_def n b ..
  show ?thesis
    by (simp add: download_image_def d h s Let_def)
qed

text \<open>
  C6. For a response with a Content-Length header: when the header is not empty, \<open>int\<close>
  accepts it and the value is greater than \<open>max_bytes\<close>, \<open>download_image\<close> returns a
  failure (the length rejection, unless the status or the content type was rejected
  first) and the file system, with no temporary file added, and the index are returned as
  they were passed in. When \<open>int\<close> does not accept the header, \<open>download_image\<close> does
  what it does for the same response without the header.
\<close>

theorem declared_length_rejection:
  assumes "content_length resp = Some cl"
  shows "(cl \<noteq> [] \<and> int_of_str E cl = Some n \<and> max_bytes < n \<longrightarrow>
            download_image E url out_dir (\<lambda>u. Response resp) index max_bytes fs =
              (Returns (Failed
                 (if raise_for_status resp then HTTP_error (status_code resp)
                  else if \<not> startswith (header_media_type resp) ''image/'' \<or>
                          header_media_type resp \<notin> ALLOWED_IMAGE_TYPES
                       then Rejected_content_type (header_media_type resp)
                       else Rejected_content_length cl max_bytes)), fs, index)) \<and>
         (int_of_str E cl = None \<longrightarrow>
            download_image E url out_dir (\<lambda>u. Response resp) index max_bytes fs =
            download_image E url out_dir (\<lambda>u. Response (resp\<lparr>content_length := None\<rparr>))
              index max_bytes fs)"
proof (intro conjI impI)
  assume a: "cl \<noteq> [] \<and> int_of_str E cl = Some n \<and> max_bytes < n"
  with assms have "declared_too_long E resp max_bytes"
    by (simp add: declared_too_long_def)
  with assms show "download_image E url out_dir (\<lambda>u. Response resp) index max_bytes fs =
              (Returns (Failed
                 (if raise_for_status resp then HTTP_error (status_code resp)
                  else if \<not> startswith (header_media_type resp) ''image/'' \<or>
                          header_media_type resp \<notin> ALLOWED_IMAGE_TYPES
                       then Rejected_content_type (header_media_type resp)
                       else Rejected_content_length cl max_bytes)), fs, index)"
    by (simp add: download_image_def Let_def)
next
  assume "int_of_str E cl = None"
  with assms show "download_image E url out_dir (\<lambda>u. Response resp) index max_bytes fs =
            download_image E url out_dir (\<lambda>u. Response (resp\<lparr>content_length := None\<rparr>))
              index max_bytes fs"
    by (rule download_image_content_length_None)
qed


theorem declared_length_rejection_witness:
  "content_length (demo_response (Some ''5'') [Chunk [1, 2]]) = Some ''5'' \<and>
   int_of_str demo_env ''5'' = Some 5 \<and>
   download_image demo_env demo_url ''out''
     (\<lambda>u. Response (demo_response (Some ''5'') [Chunk [1, 2]])) (JObj []) 4 [] =
   (Returns (Failed (Rejected_content_length ''5'' 4)), [], JObj [])"
proof -
  let ?r = "demo_response (Some ''5'') [Chunk [1, 2]]"
  have h: "content_length ?r = Some ''5''" by (simp add: demo_response_def)
  have i: "int_of_str demo_env ''5'' = Some 5" by (simp add: demo_env_def decimal_value_4)
  have r: "\<not> raise_for_status ?r" by (simp add: raise_for_status_def demo_response_def)
  from declared_length_rejection [OF h, of demo_env 5 4 demo_url "''out''" "JObj []" "[]"] h i r
  show ?thesis
    by (simp add: demo_media_type startswith_def ALLOWED_IMAGE_TYPES_def)
qed

text \<open>
  C10. Both size checks compare with \<open>>\<close>. The length rejection is returned only for a
  declared length greater than \<open>max_bytes\<close>, and the size failure only after more than
  \<open>max_bytes\<close> bytes were written. A response that declares exactly \<open>max_bytes\<close> and
  delivers exactly \<open>max_bytes\<close> bytes, with a content that the index does not hold, is
  saved.
\<close>

theorem size_checks_are_strict:
  assumes "session url = Response resp"
  shows "(fst (download_image E url out_dir session index max_bytes fs) =
            Returns (Failed (Rejected_content_length c m)) \<longrightarrow>
          (\<exists>n. content_length resp = Some c \<and> int_of_str E c = Some n \<and> max_bytes < n)) \<and>
         (fst (download_image E url out_dir session index max_bytes fs) =
            Returns (Failed (Aborted_size m)) \<longrightarrow>
          (\<exists>k\<le>length (body resp).
             max_bytes < int (length (payload (take k (body resp)))))) \<and>
         (\<not> raise_for_status resp \<and> startswith (header_media_type resp) ''image/'' \<and>
          header_media_type resp \<in> ALLOWED_IMAGE_TYPES \<and>
          content_length resp = Some c \<and> int_of_str E c = Some max_bytes \<and>
          \<not> list_ex is_fault (body resp) \<and>
          int (length (payload (body resp))) = max_bytes \<and>
          map_of fs (tmp_path_of E url out_dir resp) \<noteq> Some Dir \<and>
          index = JObj kvs \<and> map_of kvs (sha256_hexdigest E (payload (body resp))) = None \<longrightarrow>
          (\<exists>p. fst (download_image E url out_dir session index max_bytes fs) =
                 Returns (Saved p)))"
proof (intro conjI impI)
  assume a: "fst (download_image E url out_dir session index max_bytes fs) =
            Returns (Failed (Rejected_content_length c m))"
  show "\<exists>n. content_length resp = Some c \<and> int_of_str E c = Some n \<and> max_bytes < n"
  proof (cases "declared_too_long E resp max_bytes")
    case True
    then obtain cl n where cl: "content_length resp = Some cl" "int_of_str E cl = Some n"
      "max_bytes < n" unfolding declared_too_long_iff by blast
    with a assms True have "c = cl"
      by (simp add: download_image_def Let_def split: if_splits)
    with cl show ?thesis by simp
  next
    case False
    with a assms show ?thesis
      by (simp add: download_image_def Let_def fst_save_body_not_length split: if_splits)
  qed
next
  assume a: "fst (download_image E url out_dir session index max_bytes fs) =
            Returns (Failed (Aborted_size m))"
  with assms have "fst (save_body E url out_dir resp (header_media_type resp) index max_bytes fs) =
      Returns (Failed (Aborted_size m))"
    by (simp add: download_image_def Let_def split: if_splits)
  then obtain fs' index' where "save_body E url out_dir resp (header_media_type resp) index
      max_bytes fs = (Returns (Failed (Aborted_size m)), fs', index')"
    by (cases "save_body E url out_dir resp (header_media_type resp) index max_bytes fs") auto
  from save_body_Aborted [OF this]
  show "\<exists>k\<le>length (body resp). max_bytes < int (length (payload (take k (body resp))))"
    by blast
next
  assume a: "\<not> raise_for_status resp \<and> startswith (header_media_type resp) ''image/'' \<and>
          header_media_type resp \<in> ALLOWED_IMAGE_TYPES \<and>
          content_length resp = Some c \<and> int_of_str E c = Some max_bytes \<and>
          \<not> list_ex is_fault (body resp) \<and>
          int (length (payload (body resp))) = max_bytes \<and>
          map_of fs (tmp_path_of E url out_dir resp) \<noteq> Some Dir \<and>
          index = JObj kvs \<and> map_of kvs (sha256_hexdigest E (payload (body resp))) = None"
  then have "\<not> declared_too_long E resp max_bytes"
    by (simp add: declared_too_long_def)
  with a assms have p: "passes_header_checks E url session max_bytes resp"
    by (simp add: passes_header_checks_def)
  from a have "save_body E url out_dir resp (header_media_type resp) index max_bytes fs =
      (Returns (Saved (make_unique_path
               (AList.update (tmp_path_of E url out_dir resp) (File (payload (body resp))) fs)
               out_dir (determine_filename E url resp (header_media_type resp)))),
       AList.update (make_unique_path
               (AList.update (tmp_path_of E url out_dir resp) (File (payload (body resp))) fs)
               out_dir (determine_filename E url resp (header_media_type resp)))
         (File (payload (body resp))) (AList.delete (tmp_path_of E url out_dir resp) fs),
       JObj (AList.update (sha256_hexdigest E (payload (body resp)))
               (index_record E url (header_media_type resp)
                  (make_unique_path
                     (AList.update (tmp_path_of E url out_dir resp) (File (payload (body resp))) fs)
                     out_dir (determine_filename E url resp (header_media_type resp)))
                  (int (length (payload (body resp))))) kvs))"
    by (intro save_body_new) simp_all
  with download_image_passes [OF p, of out_dir index fs]
  show "\<exists>p. fst (download_image E url out_dir session index max_bytes fs) = Returns (Saved p)"
    by simp
qed


lemma str_nat_digit: "n < 10 \<Longrightarrow> str_nat n = [digit_char n]"
  by (subst str_nat.simps) simp

lemma str_nat_1: "str_nat 1 = ''1''" "str_nat (Suc 0) = ''1''"
  using str_nat_digit [of 1] by (simp_all add: digit_char_def)

lemma demo_unique_path:
  "make_unique_path [(''out/a.jpg'', File bs), (''out/a.jpg.tmp'', File cs)] ''out'' ''a.jpg'' =
     ''out/a_1.jpg''"
  by (simp add: make_unique_path_def splitext_a_jpg mup_loop.simps os_path_exists_def
      os_path_join_def startswith_def str_nat_1)

theorem size_checks_are_strict_witness:
  "demo_session (demo_response (Some ''4'') [Chunk [1, 2], Chunk [], Chunk [3, 4]]) demo_url =
     Response (demo_response (Some ''4'') [Chunk [1, 2], Chunk [], Chunk [3, 4]]) \<and>
   int_of_str demo_env ''4'' = Some 4 \<and>
   int (length (payload [Chunk [1, 2], Chunk [], Chunk [3, 4 :: byte]])) = 4 \<and>
   (\<exists>p. fst (download_image demo_env demo_url ''out''
           (demo_session (demo_response (Some ''4'') [Chunk [1, 2], Chunk [], Chunk [3, 4]]))
           (JObj []) 4 [(''out/a.jpg'', File [9])]) = Returns (Saved p))"
proof -
  let ?r = "demo_response (Some ''4'') [Chunk [1, 2], Chunk [], Chunk [3, 4]]"
  let ?fs = "[(''out/a.jpg'', File [9])]"
  have h: "demo_session ?r demo_url = Response ?r" by (simp add: demo_session_def)
  have i: "int_of_str demo_env ''4'' = Some 4" by (simp add: demo_env_def decimal_value_4)
  have b: "body ?r = [Chunk [1, 2], Chunk [], Chunk [3, 4]]" "content_length ?r = Some ''4''"
    by (simp_all add: demo_response_def)
  have r: "\<not> raise_for_status ?r" by (simp add: raise_for_status_def demo_response_def)
  have t: "map_of ?fs (tmp_path_of demo_env demo_url ''out'' ?r) \<noteq> Some Dir"
    by (simp add: demo_tmp_path)
  have a: "startswith (header_media_type ?r) ''image/'' \<and>
      header_media_type ?r \<in> ALLOWED_IMAGE_TYPES"
    by (simp add: demo_media_type startswith_def ALLOWED_IMAGE_TYPES_def)
  from size_checks_are_strict [where session = "demo_session ?r" and url = demo_url
      and resp = ?r and E = demo_env and out_dir = "''out''" and index = "JObj []"
      and max_bytes = 4 and fs = ?fs and c = "''4''" and kvs = "[]", OF h] h i b r t a
  show ?thesis by simp
qed

lemma demo_saved:
  "download_image demo_env demo_url ''out''
     (demo_session (demo_response None [Chunk [1, 2], Chunk [], Chunk [3, 4]]))
     (JObj []) 4 [(''out/a.jpg'', File [9])] =
   (Returns (Saved ''out/a_1.jpg''),
    [(''out/a.jpg'', File [9]), (''out/a_1.jpg'', File [1, 2, 3, 4])],
    JObj [(''1.2.3.4.'',
           index_record demo_env demo_url ''image/jpeg'' ''out/a_1.jpg'' 4)])"
proof -
  let ?r = "demo_response None [Chunk [1, 2], Chunk [], Chunk [3, 4]]"
  let ?fs = "[(''out/a.jpg'', File [9])]"
  have b: "body ?r = [Chunk [1, 2], Chunk [], Chunk [3, 4]]" by (simp add: demo_response_def)
  have p: "passes_header_checks demo_env demo_url (demo_session ?r) 4 ?r"
    by (simp add: demo_passes demo_declared)
  have d: "sha256_hexdigest demo_env [1, 2, 3, 4] = ''1.2.3.4.''"
    by (simp add: demo_env_def spelled_digest_def str_nat_digit digit_char_def)
  have "save_body demo_env demo_url ''out'' ?r (header_media_type ?r) (JObj []) 4 ?fs =
      (Returns (Saved ''out/a_1.jpg''),
       AList.update ''out/a_1.jpg'' (File (payload (body ?r)))
         (AList.delete (tmp_path_of demo_env demo_url ''out'' ?r) ?fs),
       JObj (AList.update (sha256_hexdigest demo_env (payload (body ?r)))
               (index_record demo_env demo_url (header_media_type ?r) ''out/a_1.jpg''
                  (int (length (payload (body ?r))))) []))"
    by (rule save_body_new)
      (simp_all add: demo_tmp_path demo_media_type demo_filename b demo_unique_path)
  with download_image_passes [OF p, of "''out''" "JObj []" ?fs] show ?thesis
    by (simp add: demo_tmp_path demo_media_type b d)
qed



lemma py_getitem_index_record:
  "py_getitem (index_record E url ct p n) ''filename'' = Inr (JStr (basename p))"
  "py_get (index_record E url ct p n) ''url'' = Inr (Some (JStr url))"
  "py_getitem (index_record E url ct p n) ''size'' = Inr (JNum n)"
  by (simp_all add: index_record_def)

lemma duplicate_outcome_index_record:
  "duplicate_outcome (index_record E url ct p n) =
     Returns (Failed (Duplicate (JStr (basename p)) (Some (JStr url))))"
  by (simp add: duplicate_outcome_def py_getitem_index_record)

lemma duplicate_outcome_not_Saved: "duplicate_outcome existing \<noteq> Returns (Saved p)"
  by (simp add: duplicate_outcome_def split: sum.splits)

lemma duplicate_outcome_filename:
  "map_of r ''filename'' = Some name \<Longrightarrow>
     duplicate_outcome (JObj r) = Returns (Failed (Duplicate name (map_of r ''url'')))"
  by (simp add: duplicate_outcome_def)

lemma index_entry_of_saved:
  assumes "download_image E url out_dir session index max_bytes fs =
             (Returns (Saved p), fs', index')"
  shows "\<exists>resp kvs. session url = Response resp \<and>
           index' = JObj (AList.update (sha256_hexdigest E (payload (body resp)))
                      (index_record E url (header_media_type resp) p
                         (int (length (payload (body resp))))) kvs)"
proof -
  from download_image_Saved [OF assms] obtain resp
    where p: "passes_header_checks E url session max_bytes resp"
      and s: "save_body E url out_dir resp (header_media_type resp) index max_bytes fs =
                (Returns (Saved p), fs', index')"
    by blast
  from save_body_Saved [OF s] p show ?thesis
    unfolding passes_header_checks_def by blast
qed

text \<open>
  C9. When \<open>download_image\<close> returns \<open>Saved p\<close>, the file at \<open>p\<close> holds exactly the
  bytes of the body's chunks, the index was a dictionary and the returned index is that
  dictionary with one entry set: its key is the digest of those bytes, and its \<open>size\<close>
  is their number.
\<close>

theorem index_entry_describes_file:
  assumes "download_image E url out_dir session index max_bytes fs =
             (Returns (Saved p), fs', index')"
  shows "\<exists>resp kvs.
           session url = Response resp \<and> index = JObj kvs \<and>
           \<not> list_ex is_fault (body resp) \<and>
           map_of fs' p = Some (File (payload (body resp))) \<and>
           index' = JObj (AList.update (sha256_hexdigest E (payload (body resp)))
                      (index_record E url (header_media_type resp) p
                         (int (length (payload (body resp))))) kvs) \<and>
           py_getitem index' (sha256_hexdigest E (payload (body resp))) =
             Inr (index_record E url (header_media_type resp) p
                    (int (length (payload (body resp))))) \<and>
           py_getitem (index_record E url (header_media_type resp) p
                         (int (length (payload (body resp))))) ''size'' =
             Inr (JNum (int (length (payload (body resp)))))"
proof -
  from download_image_Saved [OF assms] obtain resp
    where p: "passes_header_checks E url session max_bytes resp"
      and s: "save_body E url out_dir resp (header_media_type resp) index max_bytes fs =
                (Returns (Saved p), fs', index')"
    by blast
  from save_body_Saved [OF s] obtain kvs where k: "index = JObj kvs"
    "\<not> list_ex is_fault (body resp)"
    "fs' = AList.update p (File (payload (body resp)))
             (AList.delete (tmp_path_of E url out_dir resp) fs)"
    "index' = JObj (AList.update (sha256_hexdigest E (payload (body resp)))
                (index_record E url (header_media_type resp) p
                   (int (length (payload (body resp))))) kvs)"
    by blast
  from p have r: "session url = Response resp" by (simp add: passes_header_checks_def)
  have f: "map_of fs' p = Some (File (payload (body resp)))"
    by (simp add: k(3) AList.update_conv')
  have g: "py_getitem index' (sha256_hexdigest E (payload (body resp))) =
      Inr (index_record E url (header_media_type resp) p (int (length (payload (body resp)))))"
    by (simp add: k(4) AList.update_conv')
  from r k(1,2,4) f g py_getitem_index_record(3) show ?thesis by blast
qed


theorem index_entry_describes_file_witness:
  "download_image demo_env demo_url ''out''
     (demo_session (demo_response None [Chunk [1, 2], Chunk [], Chunk [3, 4]]))
     (JObj []) 4 [(''out/a.jpg'', File [9])] =
   (Returns (Saved ''out/a_1.jpg''),
    [(''out/a.jpg'', File [9]), (''out/a_1.jpg'', File [1, 2, 3, 4])],
    JObj [(''1.2.3.4.'',
           index_record demo_env demo_url ''image/jpeg'' ''out/a_1.jpg'' 4)]) \<and>
   py_getitem (index_record demo_env demo_url ''image/jpeg'' ''out/a_1.jpg'' 4) ''size'' =
     Inr (JNum 4)"
  using index_entry_describes_file [OF demo_saved] demo_saved
  by (simp add: py_getitem_index_record)

text \<open>
  What the duplicate branch does for every record: when the body was written to the end
  and its digest is a key of the index (a dictionary), \<open>download_image\<close> removes the
  temporary file, changes no other path, returns the index as it was and does not return
  \<open>Saved\<close>. It returns the duplicate failure when the record under the digest is a
  dictionary with a \<open>filename\<close> entry. Every record that the routine stores has one: a
  download whose content an earlier successful download has recorded returns the
  duplicate failure that names the earlier file and URL.
\<close>

lemma duplicate_is_not_saved_again:
  assumes "passes_header_checks E url session max_bytes resp"
    and "map_of fs (tmp_path_of E url out_dir resp) \<noteq> Some Dir"
    and "\<not> list_ex is_fault (body resp)"
    and "int (length (payload (body resp))) \<le> max_bytes"
    and "index = JObj kvs"
    and "map_of kvs (sha256_hexdigest E (payload (body resp))) = Some existing"
  shows "snd (download_image E url out_dir session index max_bytes fs) =
           (AList.delete (tmp_path_of E url out_dir resp) fs, index) \<and>
         (\<forall>p. fst (download_image E url out_dir session index max_bytes fs) \<noteq>
                Returns (Saved p)) \<and>
         (\<forall>r name. existing = JObj r \<and> map_of r ''filename'' = Some name \<longrightarrow>
            fst (download_image E url out_dir session index max_bytes fs) =
              Returns (Failed (Duplicate name (map_of r ''url'')))) \<and>
         (\<forall>url0 out0 session0 index0 max0 fs0 p0 resp0.
            download_image E url0 out0 session0 index0 max0 fs0 = (Returns (Saved p0), fs, index) \<and>
            session0 url0 = Response resp0 \<and>
            payload (body resp0) = payload (body resp) \<longrightarrow>
            fst (download_image E url out_dir session index max_bytes fs) =
              Returns (Failed (Duplicate (JStr (basename p0)) (Some (JStr url0)))))"
proof -
  have d: "download_image E url out_dir session index max_bytes fs =
      (duplicate_outcome existing, AList.delete (tmp_path_of E url out_dir resp) fs, index)"
    unfolding download_image_passes [OF assms(1)] by (rule save_body_dup [OF assms(2-6)])
  have a: "snd (download_image E url out_dir session index max_bytes fs) =
           (AList.delete (tmp_path_of E url out_dir resp) fs, index)"
    by (simp add: d)
  have b: "\<forall>p. fst (download_image E url out_dir session index max_bytes fs) \<noteq>
                Returns (Saved p)"
    by (simp add: d duplicate_outcome_not_Saved)
  have c: "\<forall>r name. existing = JObj r \<and> map_of r ''filename'' = Some name \<longrightarrow>
            fst (download_image E url out_dir session index max_bytes fs) =
              Returns (Failed (Duplicate name (map_of r ''url'')))"
    by (auto simp: d duplicate_outcome_filename)
  have e: "\<forall>url0 out0 session0 index0 max0 fs0 p0 resp0.
            download_image E url0 out0 session0 index0 max0 fs0 = (Returns (Saved p0), fs, index) \<and>
            session0 url0 = Response resp0 \<and>
            payload (body resp0) = payload (body resp) \<longrightarrow>
            fst (download_image E url out_dir session index max_bytes fs) =
              Returns (Failed (Duplicate (JStr (basename p0)) (Some (JStr url0))))"
  proof (intro allI impI)
    fix url0 out0 session0 index0 max0 fs0 p0 resp0
    assume h: "download_image E url0 out0 session0 index0 max0 fs0 = (Returns (Saved p0), fs, index) \<and>
            session0 url0 = Response resp0 \<and> payload (body resp0) = payload (body resp)"
    from index_entry_of_saved [of E url0 out0 session0 index0 max0 fs0 p0 fs index] h
    obtain resp1 kvs0 where k: "session0 url0 = Response resp1"
      "index = JObj (AList.update (sha256_hexdigest E (payload (body resp1)))
                      (index_record E url0 (header_media_type resp1) p0
                         (int (length (payload (body resp1))))) kvs0)"
      by blast
    with h have r: "resp1 = resp0" by simp
    from k(2) assms(5) have "kvs = AList.update (sha256_hexdigest E (payload (body resp0)))
                      (index_record E url0 (header_media_type resp0) p0
                         (int (length (payload (body resp0))))) kvs0"
      by (simp add: r)
    with h assms(6) have "existing = index_record E url0 (header_media_type resp0) p0
                         (int (length (payload (body resp0))))"
      by (simp add: AList.update_conv')
    then show "fst (download_image E url out_dir session index max_bytes fs) =
              Returns (Failed (Duplicate (JStr (basename p0)) (Some (JStr url0))))"
      by (simp add: d duplicate_outcome_index_record)
  qed
  from a b c e show ?thesis by blast
qed


lemma demo_digest: "sha256_hexdigest demo_env [1, 2, 3, 4] = ''1.2.3.4.''"
  by (simp add: demo_env_def spelled_digest_def str_nat_digit digit_char_def)

lemma demo_download_dup:
  assumes "map_of kvs ''1.2.3.4.'' = Some existing"
  shows "download_image demo_env demo_url ''out''
           (demo_session (demo_response None [Chunk [1, 2], Chunk [3, 4]])) (JObj kvs) 4
           [(''out/a.jpg'', File [9])] =
         (duplicate_outcome existing, [(''out/a.jpg'', File [9])], JObj kvs)"
proof -
  let ?r = "demo_response None [Chunk [1, 2], Chunk [3, 4]]"
  let ?fs = "[(''out/a.jpg'', File [9])]"
  have b: "body ?r = [Chunk [1, 2], Chunk [3, 4]]" by (simp add: demo_response_def)
  have p: "passes_header_checks demo_env demo_url (demo_session ?r) 4 ?r"
    by (simp add: demo_passes demo_declared)
  have "save_body demo_env demo_url ''out'' ?r (header_media_type ?r) (JObj kvs) 4 ?fs =
      (duplicate_outcome existing, AList.delete (tmp_path_of demo_env demo_url ''out'' ?r) ?fs,
       JObj kvs)"
    using assms by (intro save_body_dup) (simp_all add: demo_tmp_path b demo_digest)
  with download_image_passes [OF p, of "''out''" "JObj kvs" ?fs] show ?thesis
    by (simp add: demo_tmp_path)
qed

lemma duplicate_is_not_saved_again_example:
  "passes_header_checks demo_env demo_url
     (demo_session (demo_response None [Chunk [1, 2], Chunk [3, 4]])) 4
     (demo_response None [Chunk [1, 2], Chunk [3, 4]]) \<and>
   map_of [(''1.2.3.4.'', JObj [(''filename'', JStr ''b.jpg'')])]
     (sha256_hexdigest demo_env (payload [Chunk [1, 2], Chunk [3, 4]])) =
     Some (JObj [(''filename'', JStr ''b.jpg'')]) \<and>
   fst (download_image demo_env demo_url ''out''
     (demo_session (demo_response None [Chunk [1, 2], Chunk [3, 4]]))
     (JObj [(''1.2.3.4.'', JObj [(''filename'', JStr ''b.jpg'')])]) 4
     [(''out/a.jpg'', File [9])]) = Returns (Failed (Duplicate (JStr ''b.jpg'') None)) \<and>
   snd (download_image demo_env demo_url ''out''
     (demo_session (demo_response None [Chunk [1, 2], Chunk [3, 4]]))
     (JObj [(''1.2.3.4.'', JObj [(''filename'', JStr ''b.jpg'')])]) 4
     [(''out/a.jpg'', File [9])]) =
     ([(''out/a.jpg'', File [9])], JObj [(''1.2.3.4.'', JObj [(''filename'', JStr ''b.jpg'')])])"
proof -
  let ?r = "demo_response None [Chunk [1, 2], Chunk [3, 4]]"
  let ?fs = "[(''out/a.jpg'', File [9])]"
  let ?kvs = "[(''1.2.3.4.'', JObj [(''filename'', JStr ''b.jpg'')])]"
  have b: "body ?r = [Chunk [1, 2], Chunk [3, 4]]" by (simp add: demo_response_def)
  have h1: "passes_header_checks demo_env demo_url (demo_session ?r) 4 ?r"
    by (simp add: demo_passes demo_declared)
  have h2: "map_of ?fs (tmp_path_of demo_env demo_url ''out'' ?r) \<noteq> Some Dir"
    by (simp add: demo_tmp_path)
  have h3: "\<not> list_ex is_fault (body ?r)" by (simp add: b)
  have h4: "int (length (payload (body ?r))) \<le> 4" by (simp add: b)
  have h6: "map_of ?kvs (sha256_hexdigest demo_env (payload (body ?r))) =
      Some (JObj [(''filename'', JStr ''b.jpg'')])"
    by (simp add: b demo_digest)
  have m: "map_of [(''filename'', JStr ''b.jpg'')] ''filename'' = Some (JStr ''b.jpg'')"
    by simp
  note t = duplicate_is_not_saved_again [OF h1 h2 h3 h4 refl h6]
  note t1 = t [THEN conjunct1]
  note t3 = t [THEN conjunct2, THEN conjunct2, THEN conjunct1, rule_format, OF conjI [OF refl m]]
  have u: "map_of [(''filename'', JStr ''b.jpg'')] ''url'' = None" by simp
  have d: "AList.delete (tmp_path_of demo_env demo_url ''out'' ?r) ?fs = ?fs"
    by (simp add: demo_tmp_path)
  from t1 t3 h1 h6 show ?thesis unfolding u d b by simp
qed

text \<open>
  C2. The claim has every download whose digest is a key of the index return the
  duplicate failure. The message of that failure reads \<open>existing['filename']\<close> (the URL
  is read with \<open>existing.get('url')\<close>): when the record under the digest has no
  \<open>filename\<close> entry, the digest is a key of the index and the routine raises
  \<open>KeyError\<close> where the claim has it return.
\<close>

theorem duplicate_branch_raises:
  "py_contains (JObj [(''1.2.3.4.'', JObj [(''url'', JStr ''https://x.test/a.jpg'')])])
     (sha256_hexdigest demo_env (payload [Chunk [1, 2], Chunk [3, 4]])) = Inr True \<and>
   fst (download_image demo_env demo_url ''out''
     (demo_session (demo_response None [Chunk [1, 2], Chunk [3, 4]]))
     (JObj [(''1.2.3.4.'', JObj [(''url'', JStr ''https://x.test/a.jpg'')])]) 4
     [(''out/a.jpg'', File [9])]) = Raises KeyError"
  by (simp add: demo_digest demo_download_dup duplicate_outcome_def)



theorem duplicate_branch_raises_witness:
  "fst (download_image demo_env demo_url ''out''
     (demo_session (demo_response None [Chunk [1, 2], Chunk [3, 4]]))
     (JObj [(''1.2.3.4.'', JObj [(''url'', JStr ''https://x.test/a.jpg'')])]) 4
     [(''out/a.jpg'', File [9])]) = Raises KeyError"
  using duplicate_branch_raises [THEN conjunct2] by simp


lemma mup_loop_taken:
  "os_path_exists fs candidate \<Longrightarrow>
     \<exists>j\<ge>i. mup_loop fs directory base ext candidate i = candidate_name directory base ext j \<and>
       (\<forall>k. i \<le> k \<and> k < j \<longrightarrow> os_path_exists fs (candidate_name directory base ext k))"
proof (induction fs directory base ext candidate i rule: mup_loop.induct)
  case (1 fs directory base ext candidate i)
  let ?c = "candidate_name directory base ext"
  have u: "mup_loop fs directory base ext candidate i = mup_loop fs directory base ext (?c i) (i + 1)"
    using "1.prems" by (subst mup_loop.simps) (simp add: candidate_name_def)
  show ?case
  proof (cases "os_path_exists fs (?c i)")
    case False
    then have "mup_loop fs directory base ext (?c i) (i + 1) = ?c i"
      by (subst mup_loop.simps) simp
    with u show ?thesis by (intro exI [of _ i]) auto
  next
    case True
    from "1.IH" [OF "1.prems"] True obtain j where j: "i + 1 \<le> j"
      "mup_loop fs directory base ext (?c i) (i + 1) = ?c j"
      "\<forall>k. i + 1 \<le> k \<and> k < j \<longrightarrow> os_path_exists fs (?c k)"
      unfolding candidate_name_def by blast
    have "\<forall>k. i \<le> k \<and> k < j \<longrightarrow> os_path_exists fs (?c k)"
    proof (intro allI impI)
      fix k assume k: "i \<le> k \<and> k < j"
      show "os_path_exists fs (?c k)"
      proof (cases "k = i")
        case True
        with \<open>os_path_exists fs (?c i)\<close> show ?thesis by simp
      next
        case False
        with k j(3) show ?thesis by simp
      qed
    qed
    with u j show ?thesis by (intro exI [of _ j]) simp
  qed
qed

lemma mup_loop_not_taken:
  "\<not> os_path_exists fs candidate \<Longrightarrow> mup_loop fs directory base ext candidate i = candidate"
  by (subst mup_loop.simps) simp

lemma map_of_delete_other: "q \<noteq> p \<Longrightarrow> map_of (AList.delete p fs) q = map_of fs q"
  by (simp add: AList.delete_conv')

lemma two_downloads:
  assumes first: "download_image E url1 out_dir session1 index1 max1 fs1 =
                    (Returns (Saved p1), fs2, index2)"
    and r1: "session1 url1 = Response resp1"
    and second: "passes_header_checks E url2 session2 max2 resp2"
    and same: "determine_filename E url2 resp2 (header_media_type resp2) =
               determine_filename E url1 resp1 (header_media_type resp1)"
    and nf: "\<not> list_ex is_fault (body resp2)"
    and le: "int (length (payload (body resp2))) \<le> max2"
    and new: "py_contains index2 (sha256_hexdigest E (payload (body resp2))) = Inr False"
  shows "\<exists>p2 fs3 index3.
           download_image E url2 out_dir session2 index2 max2 fs2 =
             (Returns (Saved p2), fs3, index3) \<and>
           p2 \<noteq> p1 \<and>
           map_of fs3 p1 = Some (File (payload (body resp1))) \<and>
           map_of fs3 p2 = Some (File (payload (body resp2)))"
proof -
  let ?tmp = "tmp_path_of E url1 out_dir resp1"
  let ?c1 = "payload (body resp1)"
  let ?c2 = "payload (body resp2)"
  from download_image_Saved [OF first] r1
  have s1: "save_body E url1 out_dir resp1 (header_media_type resp1) index1 max1 fs1 =
              (Returns (Saved p1), fs2, index2)"
    by (auto simp: passes_header_checks_def)
  from save_body_Saved [OF s1] obtain kvs1 where k: "index1 = JObj kvs1"
    "p1 = make_unique_path (AList.update ?tmp (File ?c1) fs1) out_dir
            (determine_filename E url1 resp1 (header_media_type resp1))"
    "fs2 = AList.update p1 (File ?c1) (AList.delete ?tmp fs1)"
    "index2 = JObj (AList.update (sha256_hexdigest E ?c1)
                (index_record E url1 (header_media_type resp1) p1 (int (length ?c1))) kvs1)"
    by blast
  have t2: "tmp_path_of E url2 out_dir resp2 = ?tmp"
    by (simp add: tmp_path_of_def same)
  have "\<not> os_path_exists (AList.update ?tmp (File ?c1) fs1) p1"
    unfolding k(2) by (rule make_unique_path_free)
  then have ne: "p1 \<noteq> ?tmp"
    by (auto simp: os_path_exists_def AList.update_conv')
  then have m2: "map_of fs2 ?tmp = None"
    by (simp add: k(3) AList.update_conv' AList.delete_conv')
  then have nd: "map_of fs2 (tmp_path_of E url2 out_dir resp2) \<noteq> Some Dir"
    by (simp add: t2)
  obtain kvs2 where i2: "index2 = JObj kvs2" using k(4) by blast
  with new have n2: "map_of kvs2 (sha256_hexdigest E ?c2) = None" by simp
  define p2 where "p2 = make_unique_path
      (AList.update (tmp_path_of E url2 out_dir resp2) (File ?c2) fs2) out_dir
      (determine_filename E url2 resp2 (header_media_type resp2))"
  let ?fs3 = "AList.update p2 (File ?c2) (AList.delete (tmp_path_of E url2 out_dir resp2) fs2)"
  have s2: "save_body E url2 out_dir resp2 (header_media_type resp2) index2 max2 fs2 =
      (Returns (Saved p2), ?fs3,
       JObj (AList.update (sha256_hexdigest E ?c2)
               (index_record E url2 (header_media_type resp2) p2 (int (length ?c2))) kvs2))"
    by (rule save_body_new [OF nd nf le i2 n2 p2_def])
  have "\<not> os_path_exists (AList.update ?tmp (File ?c2) fs2) p2"
    unfolding p2_def t2 by (rule make_unique_path_free)
  moreover have "os_path_exists (AList.update ?tmp (File ?c2) fs2) p1"
    using ne by (simp add: os_path_exists_def k(3) AList.update_conv')
  ultimately have d: "p2 \<noteq> p1" by auto
  have f1: "map_of ?fs3 p1 = Some (File ?c1)"
    using d ne by (simp add: t2 AList.update_conv' AList.delete_conv' k(3))
  have f2: "map_of ?fs3 p2 = Some (File ?c2)"
    by (simp add: AList.update_conv')
  from download_image_passes [OF second, of out_dir index2 fs2] s2 d f1 f2
  show ?thesis by simp
qed

text \<open>
  C7. The path that \<open>make_unique_path\<close> returns does not exist in the file system it
  was given. It is the path of the target filename when that is free; otherwise it is the
  path with \<open>_i\<close> inserted before the extension, for the first \<open>i\<close> from 1 on whose path
  is free. Hence, after a download was saved, a second download with the same filename
  and a content whose digest the index does not hold is saved too, under another path,
  and both files are there afterwards.
\<close>

theorem make_unique_path_is_free:
  "\<not> os_path_exists fs (make_unique_path fs directory filename) \<and>
   (\<not> os_path_exists fs (os_path_join directory filename) \<longrightarrow>
      make_unique_path fs directory filename = os_path_join directory filename) \<and>
   (os_path_exists fs (os_path_join directory filename) \<longrightarrow>
      (\<exists>i\<ge>1. make_unique_path fs directory filename =
                os_path_join directory
                  (fst (splitext filename) @ ''_'' @ str_nat i @ snd (splitext filename)) \<and>
         (\<forall>k. 1 \<le> k \<and> k < i \<longrightarrow>
            os_path_exists fs
              (os_path_join directory
                 (fst (splitext filename) @ ''_'' @ str_nat k @ snd (splitext filename)))))) \<and>
   (\<forall>E url1 session1 index1 max1 fs1 p1 index2 resp1 url2 session2 max2 resp2.
      download_image E url1 directory session1 index1 max1 fs1 =
        (Returns (Saved p1), fs, index2) \<and>
      session1 url1 = Response resp1 \<and>
      passes_header_checks E url2 session2 max2 resp2 \<and>
      determine_filename E url2 resp2 (header_media_type resp2) =
        determine_filename E url1 resp1 (header_media_type resp1) \<and>
      \<not> list_ex is_fault (body resp2) \<and>
      int (length (payload (body resp2))) \<le> max2 \<and>
      py_contains index2 (sha256_hexdigest E (payload (body resp2))) = Inr False \<longrightarrow>
      (\<exists>p2 fs3 index3.
         download_image E url2 directory session2 index2 max2 fs =
           (Returns (Saved p2), fs3, index3) \<and>
         p2 \<noteq> p1 \<and>
         map_of fs3 p1 = Some (File (payload (body resp1))) \<and>
         map_of fs3 p2 = Some (File (payload (body resp2)))))"
proof (intro conjI)
  show "\<not> os_path_exists fs (make_unique_path fs directory filename)"
    by (rule make_unique_path_free)
  show "\<not> os_path_exists fs (os_path_join directory filename) \<longrightarrow>
      make_unique_path fs directory filename = os_path_join directory filename"
    by (simp add: make_unique_path_def mup_loop_not_taken case_prod_beta)
  show "os_path_exists fs (os_path_join directory filename) \<longrightarrow>
      (\<exists>i\<ge>1. make_unique_path fs directory filename =
                os_path_join directory
                  (fst (splitext filename) @ ''_'' @ str_nat i @ snd (splitext filename)) \<and>
         (\<forall>k. 1 \<le> k \<and> k < i \<longrightarrow>
            os_path_exists fs
              (os_path_join directory
                 (fst (splitext filename) @ ''_'' @ str_nat k @ snd (splitext filename)))))"
  proof
    assume "os_path_exists fs (os_path_join directory filename)"
    from mup_loop_taken [OF this, of 1 directory "fst (splitext filename)" "snd (splitext filename)"]
    show "\<exists>i\<ge>1. make_unique_path fs directory filename =
                os_path_join directory
                  (fst (splitext filename) @ ''_'' @ str_nat i @ snd (splitext filename)) \<and>
         (\<forall>k. 1 \<le> k \<and> k < i \<longrightarrow>
            os_path_exists fs
              (os_path_join directory
                 (fst (splitext filename) @ ''_'' @ str_nat k @ snd (splitext filename))))"
      by (simp add: make_unique_path_def candidate_name_def case_prod_beta)
  qed
  show "\<forall>E url1 session1 index1 max1 fs1 p1 index2 resp1 url2 session2 max2 resp2.
      download_image E url1 directory session1 index1 max1 fs1 =
        (Returns (Saved p1), fs, index2) \<and>
      session1 url1 = Response resp1 \<and>
      passes_header_checks E url2 session2 max2 resp2 \<and>
      determine_filename E url2 resp2 (header_media_type resp2) =
        determine_filename E url1 resp1 (header_media_type resp1) \<and>
      \<not> list_ex is_fault (body resp2) \<and>
      int (length (payload (body resp2))) \<le> max2 \<and>
      py_contains index2 (sha256_hexdigest E (payload (body resp2))) = Inr False \<longrightarrow>
      (\<exists>p2 fs3 index3.
         download_image E url2 directory session2 index2 max2 fs =
           (Returns (Saved p2), fs3, index3) \<and>
         p2 \<noteq> p1 \<and>
         map_of fs3 p1 = Some (File (payload (body resp1))) \<and>
         map_of fs3 p2 = Some (File (payload (body resp2))))"
  proof (intro allI impI, elim conjE)
    fix E url1 session1 index1 max1 fs1 p1 index2 resp1 url2 session2 max2 resp2
    assume "download_image E url1 directory session1 index1 max1 fs1 =
        (Returns (Saved p1), fs, index2)"
      "session1 url1 = Response resp1"
      "passes_header_checks E url2 session2 max2 resp2"
      "determine_filename E url2 resp2 (header_media_type resp2) =
        determine_filename E url1 resp1 (header_media_type resp1)"
      "\<not> list_ex is_fault (body resp2)"
      "int (length (payload (body resp2))) \<le> max2"
      "py_contains index2 (sha256_hexdigest E (payload (body resp2))) = Inr False"
    then show "\<exists>p2 fs3 index3.
         download_image E url2 directory session2 index2 max2 fs =
           (Returns (Saved p2), fs3, index3) \<and>
         p2 \<noteq> p1 \<and>
         map_of fs3 p1 = Some (File (payload (body resp1))) \<and>
         map_of fs3 p2 = Some (File (payload (body resp2)))"
      by (rule two_downloads)
  qed
qed


lemma demo_digest_56: "sha256_hexdigest demo_env [5, 6] = ''5.6.''"
  by (simp add: demo_env_def spelled_digest_def str_nat_digit digit_char_def)

theorem make_unique_path_is_free_witness:
  "os_path_exists [(''out/a.jpg'', File [9]), (''out/a.jpg.tmp'', File [1])] ''out/a.jpg'' \<and>
   make_unique_path [(''out/a.jpg'', File [9]), (''out/a.jpg.tmp'', File [1])] ''out'' ''a.jpg'' =
     ''out/a_1.jpg'' \<and>
   \<not> os_path_exists [(''out/a.jpg'', File [9]), (''out/a.jpg.tmp'', File [1])]
       (make_unique_path [(''out/a.jpg'', File [9]), (''out/a.jpg.tmp'', File [1])] ''out''
          ''a.jpg'') \<and>
   (\<exists>p2 fs3 index3.
      download_image demo_env demo_url ''out'' (demo_session (demo_response None [Chunk [5, 6]]))
        (JObj [(''1.2.3.4.'', index_record demo_env demo_url ''image/jpeg'' ''out/a_1.jpg'' 4)])
        4 [(''out/a.jpg'', File [9]), (''out/a_1.jpg'', File [1, 2, 3, 4])] =
        (Returns (Saved p2), fs3, index3) \<and>
      p2 \<noteq> ''out/a_1.jpg'' \<and>
      map_of fs3 ''out/a_1.jpg'' = Some (File [1, 2, 3, 4]) \<and>
      map_of fs3 p2 = Some (File [5, 6]))"
proof -
  let ?fs = "[(''out/a.jpg'', File [9]), (''out/a.jpg.tmp'', File [1])]"
  let ?fs2 = "[(''out/a.jpg'', File [9]), (''out/a_1.jpg'', File [1, 2, 3, 4])]"
  let ?r1 = "demo_response None [Chunk [1, 2], Chunk [], Chunk [3, 4]]"
  let ?r2 = "demo_response None [Chunk [5, 6]]"
  let ?i2 = "JObj [(''1.2.3.4.'', index_record demo_env demo_url ''image/jpeg'' ''out/a_1.jpg'' 4)]"
  have e: "os_path_exists ?fs ''out/a.jpg''" by (simp add: os_path_exists_def)
  note a = make_unique_path_is_free [of ?fs "''out''" "''a.jpg''", THEN conjunct1]
  have b1: "body ?r1 = [Chunk [1, 2], Chunk [], Chunk [3, 4]]" "body ?r2 = [Chunk [5, 6]]"
    by (simp_all add: demo_response_def)
  have h2: "demo_session ?r1 demo_url = Response ?r1" by (simp add: demo_session_def)
  have h3: "passes_header_checks demo_env demo_url (demo_session ?r2) 4 ?r2"
    by (simp add: demo_passes demo_declared)
  have h4: "determine_filename demo_env demo_url ?r2 (header_media_type ?r2) =
      determine_filename demo_env demo_url ?r1 (header_media_type ?r1)"
    by (simp add: demo_media_type demo_filename)
  have h5: "\<not> list_ex is_fault (body ?r2)" by (simp add: b1)
  have h6: "int (length (payload (body ?r2))) \<le> 4" by (simp add: b1)
  have h7: "py_contains ?i2 (sha256_hexdigest demo_env (payload (body ?r2))) = Inr False"
    by (simp add: b1 demo_digest_56)
  note t = make_unique_path_is_free [of ?fs2 "''out''" "''a.jpg''", THEN conjunct2,
      THEN conjunct2, THEN conjunct2, rule_format,
      OF conjI [OF demo_saved conjI [OF h2 conjI [OF h3 conjI [OF h4 conjI [OF h5
        conjI [OF h6 h7]]]]]]]
  from t have "\<exists>p2 fs3 index3.
      download_image demo_env demo_url ''out'' (demo_session ?r2) ?i2 4 ?fs2 =
        (Returns (Saved p2), fs3, index3) \<and>
      p2 \<noteq> ''out/a_1.jpg'' \<and>
      map_of fs3 ''out/a_1.jpg'' = Some (File [1, 2, 3, 4]) \<and>
      map_of fs3 p2 = Some (File [5, 6])"
    by (simp add: b1)
  with e a demo_unique_path [of "[9]" "[1]"] show ?thesis by simp
qed



lemma demo_download_dir:
  "download_image demo_env demo_url ''out'' (demo_session (demo_response None [Chunk [1, 2]]))
     (JObj []) 4 [(''out/a.jpg.tmp'', Dir)] =
   (Raises IsADirectoryError, [(''out/a.jpg.tmp'', Dir)], JObj [])"
proof -
  let ?r = "demo_response None [Chunk [1, 2]]"
  have p: "passes_header_checks demo_env demo_url (demo_session ?r) 4 ?r"
    by (simp add: demo_passes demo_declared)
  have t: "os_path_join ''out'' (determine_filename demo_env demo_url ?r ''image/jpeg'' @ ''.tmp'') =
      ''out/a.jpg.tmp''"
    using demo_tmp_path [of None "[Chunk [1, 2]]"] by (simp add: tmp_path_of_def demo_media_type)
  have "save_body demo_env demo_url ''out'' ?r ''image/jpeg'' (JObj []) 4 [(''out/a.jpg.tmp'', Dir)] =
      (Raises IsADirectoryError, [(''out/a.jpg.tmp'', Dir)], JObj [])"
    by (simp add: save_body_def Let_def t open_wb_def cleanup_and_fail_def os_path_exists_def
        os_remove_def)
  with download_image_passes [OF p, of "''out''" "JObj []" "[(''out/a.jpg.tmp'', Dir)]"]
  show ?thesis by (simp add: demo_media_type)
qed

lemma demo_download_list_index:
  "download_image demo_env demo_url ''out'' (demo_session (demo_response None [Chunk [1, 2]]))
     (JList []) 4 [] =
   (Raises TypeError, [(''out/a.jpg'', File [1, 2])], JList [])"
proof -
  let ?r = "demo_response None [Chunk [1, 2]]"
  have b: "body ?r = [Chunk [1, 2]]" by (simp add: demo_response_def)
  have p: "passes_header_checks demo_env demo_url (demo_session ?r) 4 ?r"
    by (simp add: demo_passes demo_declared)
  have u: "make_unique_path [(''out/a.jpg.tmp'', File [1, 2])] ''out'' ''a.jpg'' = ''out/a.jpg''"
    by (simp add: make_unique_path_def splitext_a_jpg mup_loop.simps os_path_exists_def
        os_path_join_def startswith_def)
  have "save_body demo_env demo_url ''out'' ?r (header_media_type ?r) (JList []) 4 [] =
      (Raises TypeError, [(''out/a.jpg'', File [1, 2])], JList [])"
    unfolding save_body_complete [of "[]" demo_env demo_url "''out''" ?r 4 "JList []",
        simplified demo_tmp_path b, simplified]
    by (simp add: finish_download_def Let_def demo_media_type demo_filename u os_replace_def)
  with download_image_passes [OF p, of "''out''" "JList []" "[]"] show ?thesis by simp
qed

text \<open>The routine returns, whatever the session and the body do, when the index is a
  dictionary whose records have a \<open>filename\<close> entry and the path of the temporary
  file is not a directory.\<close>

lemma finish_download_returns:
  assumes "index = JObj kvs"
    and "\<And>d v. map_of kvs d = Some v \<Longrightarrow> \<exists>r n. v = JObj r \<and> map_of r ''filename'' = Some n"
    and "map_of fs tmp = Some (File bs)"
  shows "\<exists>res. fst (finish_download E url out_dir ct filename tmp fs index sha t) = Returns res"
proof (cases "map_of kvs (sha256_hexdigest E sha)")
  case None
  from finish_download_new [OF assms(1) None assms(3)] show ?thesis by simp
next
  case (Some existing)
  from assms(2) [OF Some] obtain r n where "existing = JObj r" "map_of r ''filename'' = Some n"
    by blast
  with finish_download_dup [OF assms(1) Some assms(3)] show ?thesis
    by (simp add: duplicate_outcome_filename)
qed

lemma download_image_returns:
  assumes "index = JObj kvs"
    and "\<And>d v. map_of kvs d = Some v \<Longrightarrow> \<exists>r n. v = JObj r \<and> map_of r ''filename'' = Some n"
    and "\<And>resp. session url = Response resp \<Longrightarrow>
           map_of fs (tmp_path_of E url out_dir resp) \<noteq> Some Dir"
  shows "\<exists>res. fst (download_image E url out_dir session index max_bytes fs) = Returns res"
proof (cases "session url")
  case (RequestException e)
  then show ?thesis by (simp add: download_image_def)
next
  case (Response resp)
  let ?tmp = "tmp_path_of E url out_dir resp"
  let ?ct = "header_media_type resp"
  let ?fs1 = "AList.update ?tmp (File []) fs"
  from assms(3) [OF Response] have nd: "map_of fs ?tmp \<noteq> Some Dir" .
  obtain ex fs2 sha t where w: "write_chunks max_bytes ?tmp (body resp) ?fs1 [] 0 = (ex, fs2, sha, t)"
    by (cases "write_chunks max_bytes ?tmp (body resp) ?fs1 [] 0") auto
  have "map_of ?fs1 ?tmp = Some (File [])" by (simp add: AList.update_conv')
  from write_chunks_prefix [OF w this] obtain k
    where "fs2 = AList.update ?tmp (File ([] @ payload (take k (body resp)))) ?fs1" by blast
  then have m: "map_of fs2 ?tmp = Some (File (payload (take k (body resp))))"
    by (simp add: AList.update_conv')
  have "\<exists>res. fst (save_body E url out_dir resp ?ct index max_bytes fs) = Returns res"
  proof (cases ex)
    case Exhausted
    with w nd finish_download_returns [OF assms(1,2) m] show ?thesis
      by (simp add: save_body_def Let_def open_wb_ok tmp_path_of_def [symmetric])
  next
    case Over_limit
    with w nd os_remove_File [OF m] show ?thesis
      by (simp add: save_body_def Let_def open_wb_ok tmp_path_of_def [symmetric])
  next
    case (Raised_in_loop e)
    with w nd cleanup_and_fail_File [OF m] show ?thesis
      by (simp add: save_body_def Let_def open_wb_ok tmp_path_of_def [symmetric])
  qed
  with Response show ?thesis
    by (simp add: download_image_def Let_def)
qed


text \<open>
  C4. The claim has \<open>download_image\<close> never raise. The routine raises \<open>KeyError\<close> when
  the index, as \<open>load_index\<close> can return it from a well-formed JSON file, holds under
  the digest a record without a \<open>filename\<close> entry; the message of the duplicate failure
  reads that entry with \<open>existing['filename']\<close>, outside every \<open>try\<close>. It also raises
  when the path of the temporary file is a directory (the handler's \<open>os.remove\<close>
  raises in its turn) and when the index is a JSON list (the assignment of step 6 raises
  after the file was moved to its final name).
\<close>

theorem download_image_raises:
  "load_index (\<lambda>bs. Some (JObj [(''1.2.3.4.'', JObj [])])) [(''out/index.json'', File [])]
     ''out/index.json'' = JObj [(''1.2.3.4.'', JObj [])] \<and>
   download_image demo_env demo_url ''out''
     (demo_session (demo_response None [Chunk [1, 2], Chunk [3, 4]]))
     (JObj [(''1.2.3.4.'', JObj [])]) 4 [(''out/a.jpg'', File [9])] =
     (Raises KeyError, [(''out/a.jpg'', File [9])], JObj [(''1.2.3.4.'', JObj [])]) \<and>
   download_image demo_env demo_url ''out'' (demo_session (demo_response None [Chunk [1, 2]]))
     (JObj []) 4 [(''out/a.jpg.tmp'', Dir)] =
     (Raises IsADirectoryError, [(''out/a.jpg.tmp'', Dir)], JObj []) \<and>
   download_image demo_env demo_url ''out'' (demo_session (demo_response None [Chunk [1, 2]]))
     (JList []) 4 [] =
     (Raises TypeError, [(''out/a.jpg'', File [1, 2])], JList [])"
proof -
  have l: "load_index (\<lambda>bs. Some (JObj [(''1.2.3.4.'', JObj [])])) [(''out/index.json'', File [])]
     ''out/index.json'' = JObj [(''1.2.3.4.'', JObj [])]"
    by (simp add: load_index_def os_path_exists_def)
  have k: "download_image demo_env demo_url ''out''
     (demo_session (demo_response None [Chunk [1, 2], Chunk [3, 4]]))
     (JObj [(''1.2.3.4.'', JObj [])]) 4 [(''out/a.jpg'', File [9])] =
     (Raises KeyError, [(''out/a.jpg'', File [9])], JObj [(''1.2.3.4.'', JObj [])])"
    by (simp add: demo_download_dup duplicate_outcome_def)
  from l k demo_download_dir demo_download_list_index show ?thesis by simp
qed


theorem download_image_raises_witness:
  "fst (download_image demo_env demo_url ''out''
     (demo_session (demo_response None [Chunk [1, 2], Chunk [3, 4]]))
     (JObj [(''1.2.3.4.'', JObj [])]) 4 [(''out/a.jpg'', File [9])]) = Raises KeyError"
  using download_image_raises [THEN conjunct2, THEN conjunct1] by simp


end
